theory Spec2Isabelle
  imports Main
begin

section \<open>Python values\<close>

text \<open>
  Strings are \<^typ>\<open>string\<close>; only the ASCII behaviour of \<open>str.strip\<close>, \<open>str.lower\<close>
  and \<open>str.isdigit\<close> is modelled. A decoded JSON document is a \<^emph>\<open>json\<close> value; a
  \<open>JDict\<close> lists the items of a Python dict in insertion order (keys distinct), and JSON
  numbers are integers (floats are not modelled).
\<close>

datatype json =
    JNull
  | JBool bool
  | JInt int
  | JStr string
  | JList "json list"
  | JDict "(string \<times> json) list"

datatype error =
    HTTPError int string string
      \<comment> \<open>\<open>requests.HTTPError(f"{status} for {url}: {text}")\<close>: status, url, body text\<close>
  | StatusError int string
      \<comment> \<open>raised by \<open>resp.raise_for_status()\<close>: status, url\<close>
  | RuntimeError string
  | JSONDecodeError
  | AttributeError
  | TypeError
  | ValueError

text \<open>Truthiness, as \<open>if x\<close>, \<open>x or y\<close> and \<open>x and y\<close> test it.\<close>

fun truthy :: "json \<Rightarrow> bool" where
  "truthy JNull = False"
| "truthy (JBool b) = b"
| "truthy (JInt n) = (n \<noteq> 0)"
| "truthy (JStr s) = (s \<noteq> [])"
| "truthy (JList xs) = (xs \<noteq> [])"
| "truthy (JDict kvs) = (kvs \<noteq> [])"

definition py_or :: "json \<Rightarrow> json \<Rightarrow> json" where
  "py_or a b = (if truthy a then a else b)"

text \<open>\<open>d.get(k)\<close> and \<open>d.get(k, default)\<close> on the items of a dict.\<close>

definition dict_get :: "(string \<times> json) list \<Rightarrow> string \<Rightarrow> json" where
  "dict_get kvs k = (case map_of kvs k of None \<Rightarrow> JNull | Some v \<Rightarrow> v)"

definition dict_get_default :: "(string \<times> json) list \<Rightarrow> string \<Rightarrow> json \<Rightarrow> json" where
  "dict_get_default kvs k d = (case map_of kvs k of None \<Rightarrow> d | Some v \<Rightarrow> v)"

subsection \<open>String methods\<close>

definition is_space :: "char \<Rightarrow> bool" where
  "is_space c \<longleftrightarrow> c \<in> set [CHR 0x09, CHR 0x0A, CHR 0x0B, CHR 0x0C, CHR 0x0D,
                            CHR 0x1C, CHR 0x1D, CHR 0x1E, CHR 0x1F, CHR 0x20]"

definition strip_chars :: "(char \<Rightarrow> bool) \<Rightarrow> string \<Rightarrow> string" where
  "strip_chars P s = rev (dropWhile P (rev (dropWhile P s)))"

definition strip :: "string \<Rightarrow> string" where
  "strip s = strip_chars is_space s"

definition strip_hyphen :: "string \<Rightarrow> string" where
  "strip_hyphen s = strip_chars (\<lambda>c. c = CHR ''-'') s"

definition lower_char :: "char \<Rightarrow> char" where
  "lower_char c =
     (case map_of (zip ''ABCDEFGHIJKLMNOPQRSTUVWXYZ'' ''abcdefghijklmnopqrstuvwxyz'') c of
        None \<Rightarrow> c | Some l \<Rightarrow> l)"

definition lower :: "string \<Rightarrow> string" where
  "lower s = map lower_char s"

definition is_digit :: "char \<Rightarrow> bool" where
  "is_digit c \<longleftrightarrow> c \<in> set ''0123456789''"

definition isdigit :: "string \<Rightarrow> bool" where
  "isdigit s \<longleftrightarrow> s \<noteq> [] \<and> list_all is_digit s"

definition digit_val :: "char \<Rightarrow> int" where
  "digit_val c = (case map_of (zip ''0123456789'' [0, 1, 2, 3, 4, 5, 6, 7, 8, 9]) c of
                    None \<Rightarrow> 0 | Some d \<Rightarrow> d)"

definition int_of_digits :: "string \<Rightarrow> int" where
  "int_of_digits s = foldl (\<lambda>acc c. 10 * acc + digit_val c) 0 s"

text \<open>\<open>s.split(c, 1)[0]\<close>: the text before the first \<open>c\<close>, all of \<open>s\<close> when there is none.\<close>

definition before_first :: "char \<Rightarrow> string \<Rightarrow> string" where
  "before_first c s = takeWhile (\<lambda>x. x \<noteq> c) s"

text \<open>\<open>s.replace(c, new)\<close> for a one-character pattern.\<close>

definition replace_char :: "char \<Rightarrow> string \<Rightarrow> string \<Rightarrow> string" where
  "replace_char c new s = concat (map (\<lambda>x. if x = c then new else [x]) s)"

section \<open>The HTTP boundary\<close>

text \<open>
  A response as \<open>requests\<close> presents it: status, the \<open>Retry-After\<close> and rate-limit headers,
  the body text, the decoded body (\<open>None\<close> when \<open>resp.json()\<close> raises) and whether
  \<open>resp.links\<close> has a \<open>next\<close> relation. The server answers the \<open>n\<close>-th GET of the run, given
  its url and query parameters; every GET is taken to deliver a response (transport
  failures are not modelled). The world counts the GETs issued and logs every
  \<open>time.sleep\<close>.
\<close>

record response =
  status_code :: int
  retry_after :: "string option"
  ratelimit_remaining :: "string option"
  ratelimit_reset :: "string option"
  body_text :: string
  body :: "json option"
  links_next :: bool

type_synonym params = "string \<rightharpoonup> int"
type_synonym server = "nat \<Rightarrow> string \<Rightarrow> params \<Rightarrow> response"

record world =
  calls :: nat
  slept :: "int list"

definition http_get :: "server \<Rightarrow> string \<Rightarrow> params \<Rightarrow> world \<Rightarrow> response \<times> world" where
  "http_get srv url ps w = (srv (calls w) url ps, w\<lparr>calls := calls w + 1\<rparr>)"

definition sleep :: "int \<Rightarrow> world \<Rightarrow> world" where
  "sleep secs w = w\<lparr>slept := slept w @ [secs]\<rparr>"

subsection \<open>gh_get\<close>

definition retry_status :: "int \<Rightarrow> bool" where
  "retry_status s \<longleftrightarrow> s \<in> set [403, 429, 500, 502, 503, 504]"

definition retry_wait :: "int \<Rightarrow> response \<Rightarrow> int" where
  "retry_wait attempt resp =
     (case retry_after resp of
        Some ra \<Rightarrow> if ra \<noteq> [] \<and> isdigit ra then int_of_digits ra else min 30 (2 * attempt)
      | None \<Rightarrow> min 30 (2 * attempt))"

text \<open>The body of \<open>for attempt in range(1, 7)\<close>, over the attempts still to make.\<close>

fun gh_get_attempts ::
  "server \<Rightarrow> string \<Rightarrow> params \<Rightarrow> int list \<Rightarrow> response option \<Rightarrow> world \<Rightarrow> response option \<times> world"
where
  "gh_get_attempts srv url ps [] last_resp w = (last_resp, w)"
| "gh_get_attempts srv url ps (attempt # rest) last_resp w =
     (case http_get srv url ps w of (resp, w1) \<Rightarrow>
        if retry_status (status_code resp)
        then gh_get_attempts srv url ps rest (Some resp) (sleep (retry_wait attempt resp) w1)
        else (Some resp, w1))"

definition gh_get :: "server \<Rightarrow> string \<Rightarrow> params \<Rightarrow> world \<Rightarrow> response option \<times> world" where
  "gh_get srv url ps w = gh_get_attempts srv url ps [1, 2, 3, 4, 5, 6] None w"

subsection \<open>Iteration, length and \<open>int()\<close> on decoded values\<close>

text \<open>
  \<open>for x in v\<close> and \<open>list.extend(v)\<close> accept a list, a dict (its keys) or a string (its
  characters) and raise \<open>TypeError\<close> on anything else.
\<close>

fun py_iter :: "json \<Rightarrow> error + json list" where
  "py_iter (JList xs) = Inr xs"
| "py_iter (JDict kvs) = Inr (map (\<lambda>kv. JStr (fst kv)) kvs)"
| "py_iter (JStr s) = Inr (map (\<lambda>c. JStr [c]) s)"
| "py_iter v = Inl TypeError"

fun py_len :: "json \<Rightarrow> error + int" where
  "py_len (JList xs) = Inr (int (length xs))"
| "py_len (JDict kvs) = Inr (int (length kvs))"
| "py_len (JStr s) = Inr (int (length s))"
| "py_len v = Inl TypeError"

text \<open>
  \<open>int(v)\<close>; how the interpreter reads a string as a number is the parameter
  \<open>int_of_str\<close> (\<open>None\<close> where it raises \<open>ValueError\<close>).
\<close>

fun py_int :: "(string \<Rightarrow> int option) \<Rightarrow> json \<Rightarrow> error + int" where
  "py_int int_of_str (JInt n) = Inr n"
| "py_int int_of_str (JBool b) = Inr (if b then 1 else 0)"
| "py_int int_of_str (JStr s) =
     (case int_of_str s of None \<Rightarrow> Inl ValueError | Some n \<Rightarrow> Inr n)"
| "py_int int_of_str v = Inl TypeError"

text \<open>
  \<open>str(v)\<close>; the text the interpreter prints for a value that is not a string is the
  parameter \<open>str_of\<close>.
\<close>

definition py_str :: "(json \<Rightarrow> string) \<Rightarrow> json \<Rightarrow> string" where
  "py_str str_of v = (case v of JStr s \<Rightarrow> s | _ \<Rightarrow> str_of v)"

subsection \<open>normalize_list_payload\<close>

definition is_list :: "json \<Rightarrow> bool" where
  "is_list v = (case v of JList xs \<Rightarrow> True | _ \<Rightarrow> False)"

fun type_name :: "json \<Rightarrow> string" where
  "type_name JNull = ''NoneType''"
| "type_name (JBool b) = ''bool''"
| "type_name (JInt n) = ''int''"
| "type_name (JStr s) = ''str''"
| "type_name (JList xs) = ''list''"
| "type_name (JDict kvs) = ''dict''"

definition unsupported_shape :: "json \<Rightarrow> error" where
  "unsupported_shape payload =
     RuntimeError (''Unsupported list payload shape: <class '' @ [CHR 0x27] @ type_name payload
                   @ [CHR 0x27] @ ''>'')"

text \<open>The \<open>for k in keys\<close> loop over a dict payload.\<close>

fun first_list_value :: "(string \<times> json) list \<Rightarrow> string list \<Rightarrow> json list option" where
  "first_list_value kvs [] = None"
| "first_list_value kvs (k # ks) =
     (case dict_get kvs k of JList v \<Rightarrow> Some v | _ \<Rightarrow> first_list_value kvs ks)"

definition normalize_list_payload :: "json \<Rightarrow> string list \<Rightarrow> error + json list" where
  "normalize_list_payload payload keys =
     (case payload of
        JList xs \<Rightarrow> Inr xs
      | JDict kvs \<Rightarrow>
          (case first_list_value kvs keys of
             Some v \<Rightarrow> Inr v
           | None \<Rightarrow> Inl (unsupported_shape payload))
      | _ \<Rightarrow> Inl (unsupported_shape payload))"

subsection \<open>fetch_rest_list_paged\<close>

text \<open>\<open>resp.raise_for_status()\<close> of \<open>requests\<close>: an error for every 4xx and 5xx status.\<close>

definition raise_for_status :: "response \<Rightarrow> string \<Rightarrow> error + unit" where
  "raise_for_status resp url =
     (if 400 \<le> status_code resp \<and> status_code resp < 600
      then Inl (StatusError (status_code resp) url) else Inr ())"

definition resp_json :: "response \<Rightarrow> error + json" where
  "resp_json resp = (case body resp of None \<Rightarrow> Inl JSONDecodeError | Some j \<Rightarrow> Inr j)"

definition page_params :: "params option \<Rightarrow> int \<Rightarrow> int \<Rightarrow> params" where
  "page_params extra_params per_page page =
     ((case extra_params of None \<Rightarrow> Map.empty | Some e \<Rightarrow> e)
        (''per_page'' \<mapsto> per_page, ''page'' \<mapsto> page))"

text \<open>
  One pass through the body of \<open>while True\<close>: an error, or the items gathered so far
  together with whether the loop goes on to the next page.
\<close>

definition rest_page ::
  "server \<Rightarrow> string \<Rightarrow> string list \<Rightarrow> int \<Rightarrow> params option \<Rightarrow> json list \<Rightarrow> int \<Rightarrow> world
   \<Rightarrow> (error + bool \<times> json list) \<times> world"
where
  "rest_page srv url keys per_page extra_params out page w =
     (case gh_get srv url (page_params extra_params per_page page) w of
        (None, w1) \<Rightarrow> (Inl AttributeError, w1)
      | (Some resp, w1) \<Rightarrow>
          if status_code resp = 403 \<or> status_code resp = 404
          then (Inl (HTTPError (status_code resp) url (body_text resp)), w1)
          else (case raise_for_status resp url of
                  Inl e \<Rightarrow> (Inl e, w1)
                | Inr _ \<Rightarrow>
                   (case resp_json resp of
                      Inl e \<Rightarrow> (Inl e, w1)
                    | Inr payload \<Rightarrow>
                       (case normalize_list_payload payload keys of
                          Inl e \<Rightarrow> (Inl e, w1)
                        | Inr items \<Rightarrow>
                            (Inr (\<not> int (length items) < per_page, out @ items), w1)))))"

partial_function (option) fetch_rest_list_paged_loop ::
  "server \<Rightarrow> string \<Rightarrow> string list \<Rightarrow> int \<Rightarrow> params option \<Rightarrow> json list \<Rightarrow> int \<Rightarrow> world
   \<Rightarrow> ((error + json list) \<times> world) option"
where
  "fetch_rest_list_paged_loop srv url keys per_page extra_params out page w =
     (case rest_page srv url keys per_page extra_params out page w of
        (Inl e, w1) \<Rightarrow> Some (Inl e, w1)
      | (Inr (again, out1), w1) \<Rightarrow>
          if again
          then fetch_rest_list_paged_loop srv url keys per_page extra_params out1 (page + 1) w1
          else Some (Inr out1, w1))"

definition fetch_rest_list_paged ::
  "server \<Rightarrow> string \<Rightarrow> string list \<Rightarrow> int \<Rightarrow> params option \<Rightarrow> world
   \<Rightarrow> ((error + json list) \<times> world) option"
where
  "fetch_rest_list_paged srv url keys per_page extra_params w =
     fetch_rest_list_paged_loop srv url keys per_page extra_params [] 1 w"

subsection \<open>Configuration\<close>

text \<open>
  \<open>API_BASE\<close>, \<open>ENTERPRISE_SLUG\<close> (never empty: the script exits otherwise) and the raw
  value of the \<open>LOGIN_SUFFIX\<close> variable (empty when unset).
\<close>

record config =
  API_BASE :: string
  ENTERPRISE_SLUG :: string
  LOGIN_SUFFIX_env :: string

definition LOGIN_SUFFIX :: "config \<Rightarrow> string" where
  "LOGIN_SUFFIX cfg = lower (strip (LOGIN_SUFFIX_env cfg))"

subsection \<open>fetch_all_scim_users\<close>

text \<open>
  What one pass through the body of \<open>while True\<close> reads from the response: an error, or
  \<open>resources\<close> as \<open>users.extend\<close> receives them, \<open>total_results\<close> and \<open>items_per_page\<close>.
\<close>

definition scim_read_page ::
  "(string \<Rightarrow> int option) \<Rightarrow> response \<Rightarrow> string \<Rightarrow> error + json list \<times> int \<times> int"
where
  "scim_read_page int_of_str resp url =
     (case raise_for_status resp url of
        Inl e \<Rightarrow> Inl e
      | Inr _ \<Rightarrow>
         (case resp_json resp of
            Inl e \<Rightarrow> Inl e
          | Inr j \<Rightarrow>
             (case py_or j (JDict []) of
                JDict payload \<Rightarrow>
                  (let resources = py_or (dict_get payload ''Resources'') (JList []) in
                   case py_iter resources of
                     Inl e \<Rightarrow> Inl e
                   | Inr rs \<Rightarrow>
                      (case py_int int_of_str (py_or (dict_get payload ''totalResults'') (JInt 0)) of
                         Inl e \<Rightarrow> Inl e
                       | Inr total_results \<Rightarrow>
                          (case py_int int_of_str
                                  (py_or (dict_get payload ''itemsPerPage'')
                                     (py_or (JInt (int (length rs))) (JInt 0))) of
                             Inl e \<Rightarrow> Inl e
                           | Inr items_per_page \<Rightarrow> Inr (rs, total_results, items_per_page))))
              | _ \<Rightarrow> Inl AttributeError)))"

text \<open>
  The pass itself: an error, or the users gathered so far, the next \<open>start_index\<close> and
  whether the loop goes on.
\<close>

definition scim_page ::
  "(string \<Rightarrow> int option) \<Rightarrow> server \<Rightarrow> string \<Rightarrow> int \<Rightarrow> json list \<Rightarrow> world
   \<Rightarrow> (error + bool \<times> int \<times> json list) \<times> world"
where
  "scim_page int_of_str srv url start_index users w =
     (case gh_get srv url [''startIndex'' \<mapsto> start_index, ''count'' \<mapsto> 100] w of
        (None, w1) \<Rightarrow> (Inl AttributeError, w1)
      | (Some resp, w1) \<Rightarrow>
         (case scim_read_page int_of_str resp url of
            Inl e \<Rightarrow> (Inl e, w1)
          | Inr (rs, total_results, items_per_page) \<Rightarrow>
              if items_per_page \<le> 0 then (Inr (False, start_index, users @ rs), w1)
              else (Inr (\<not> start_index + items_per_page > total_results,
                         start_index + items_per_page, users @ rs), w1)))"

partial_function (option) fetch_all_scim_users_loop ::
  "(string \<Rightarrow> int option) \<Rightarrow> server \<Rightarrow> string \<Rightarrow> int \<Rightarrow> json list \<Rightarrow> world
   \<Rightarrow> ((error + json list) \<times> world) option"
where
  "fetch_all_scim_users_loop int_of_str srv url start_index users w =
     (case scim_page int_of_str srv url start_index users w of
        (Inl e, w1) \<Rightarrow> Some (Inl e, w1)
      | (Inr (again, start_index1, users1), w1) \<Rightarrow>
          if again then fetch_all_scim_users_loop int_of_str srv url start_index1 users1 w1
          else Some (Inr users1, w1))"

definition scim_url :: "config \<Rightarrow> string" where
  "scim_url cfg = API_BASE cfg @ ''/scim/v2/enterprises/'' @ ENTERPRISE_SLUG cfg @ ''/Users''"

definition fetch_all_scim_users ::
  "config \<Rightarrow> (string \<Rightarrow> int option) \<Rightarrow> server \<Rightarrow> world \<Rightarrow> ((error + json list) \<times> world) option"
where
  "fetch_all_scim_users cfg int_of_str srv w =
     fetch_all_scim_users_loop int_of_str srv (scim_url cfg) 1 [] w"

section \<open>Identity reconciliation\<close>

subsection \<open>pick_scim_email, pick_scim_name\<close>

definition is_primary_email :: "json \<Rightarrow> bool" where
  "is_primary_email e =
     (case e of
        JDict kvs \<Rightarrow> dict_get kvs ''primary'' = JBool True \<and> truthy (dict_get kvs ''value'')
      | _ \<Rightarrow> False)"

definition has_email_value :: "json \<Rightarrow> bool" where
  "has_email_value e = (case e of JDict kvs \<Rightarrow> truthy (dict_get kvs ''value'') | _ \<Rightarrow> False)"

definition email_value :: "(json \<Rightarrow> string) \<Rightarrow> json \<Rightarrow> string" where
  "email_value str_of e =
     (case e of
        JDict kvs \<Rightarrow> strip (py_str str_of (py_or (dict_get kvs ''value'') (JStr [])))
      | _ \<Rightarrow> [])"

definition user_name_of :: "(json \<Rightarrow> string) \<Rightarrow> (string \<times> json) list \<Rightarrow> string" where
  "user_name_of str_of u = strip (py_str str_of (py_or (dict_get u ''userName'') (JStr [])))"

definition pick_scim_email :: "(json \<Rightarrow> string) \<Rightarrow> (string \<times> json) list \<Rightarrow> string" where
  "pick_scim_email str_of u =
     (let user_name = user_name_of str_of u;
          fallback = (if CHR ''@'' \<in> set user_name then user_name else [])
      in case py_or (dict_get u ''emails'') (JList []) of
           JList emails \<Rightarrow>
             (case find is_primary_email emails of
                Some primary \<Rightarrow> email_value str_of primary
              | None \<Rightarrow>
                 (case find has_email_value emails of
                    Some first \<Rightarrow> email_value str_of first
                  | None \<Rightarrow> fallback))
         | _ \<Rightarrow> fallback)"

definition pick_scim_name :: "(json \<Rightarrow> string) \<Rightarrow> (string \<times> json) list \<Rightarrow> string" where
  "pick_scim_name str_of u =
     (let dn = strip (py_str str_of (py_or (dict_get u ''displayName'') (JStr [])))
      in if dn \<noteq> [] then dn
         else case py_or (dict_get u ''name'') (JDict []) of
                JDict name_obj \<Rightarrow>
                  (let formatted = strip (py_str str_of (py_or (dict_get name_obj ''formatted'') (JStr [])))
                   in if formatted \<noteq> [] then formatted
                      else let given = strip (py_str str_of (py_or (dict_get name_obj ''givenName'') (JStr [])));
                               family = strip (py_str str_of (py_or (dict_get name_obj ''familyName'') (JStr [])));
                               full = strip (if given \<noteq> [] \<and> family \<noteq> [] then given @ '' '' @ family
                                             else given @ family)
                           in full)
              | _ \<Rightarrow> [])"

subsection \<open>derive_suffix_token, generate_login_candidates_from_email\<close>

definition derive_suffix_token :: "config \<Rightarrow> string" where
  "derive_suffix_token cfg =
     (if LOGIN_SUFFIX cfg \<noteq> [] then LOGIN_SUFFIX cfg
      else lower (strip (before_first CHR ''-'' (ENTERPRISE_SLUG cfg))))"

definition is_alnum :: "char \<Rightarrow> bool" where
  "is_alnum c \<longleftrightarrow> c \<in> set ''abcdefghijklmnopqrstuvwxyz0123456789''"

text \<open>The six strings added to \<open>variants\<close>, in the order of the source.\<close>

definition variants :: "string \<Rightarrow> string list" where
  "variants local =
     [local,
      replace_char CHR ''.'' [] local,
      replace_char CHR ''.'' ''-'' local,
      replace_char CHR ''_'' ''-'' local,
      filter (\<lambda>c. is_alnum c \<or> c = CHR ''-'') local,
      filter is_alnum local]"

text \<open>What one pass of \<open>for v in list(variants)\<close> adds to \<open>out\<close>.\<close>

definition variant_logins :: "string \<Rightarrow> string \<Rightarrow> string list" where
  "variant_logins suffix v0 =
     (let v = strip (strip_hyphen v0)
      in if v = [] then []
         else v # (if suffix \<noteq> [] then [v @ ''_'' @ suffix] else []))"

text \<open>
  The members of the returned set, listed variant by variant; the set itself is
  \<open>generate_login_candidates_from_email\<close>.
\<close>

definition login_candidates :: "config \<Rightarrow> string \<Rightarrow> string list" where
  "login_candidates cfg email0 =
     (let email = lower (strip email0)
      in if CHR ''@'' \<notin> set email then []
         else let local = strip (before_first CHR ''@'' email)
              in if local = [] then []
                 else concat (map (variant_logins (derive_suffix_token cfg)) (variants local)))"

definition generate_login_candidates_from_email :: "config \<Rightarrow> string \<Rightarrow> string set" where
  "generate_login_candidates_from_email cfg email = set (login_candidates cfg email)"

subsection \<open>build_scim_index\<close>

record identity =
  id_name :: string
  id_email :: string
  id_scim_userName :: string

type_synonym scim_index = "string \<rightharpoonup> identity"

definition scim_identity :: "(json \<Rightarrow> string) \<Rightarrow> (string \<times> json) list \<Rightarrow> identity" where
  "scim_identity str_of u =
     \<lparr>id_name = pick_scim_name str_of u, id_email = pick_scim_email str_of u,
      id_scim_userName = user_name_of str_of u\<rparr>"

text \<open>The members of \<open>keys\<close> for one record (a set in the source; listed here).\<close>

definition scim_keys :: "config \<Rightarrow> (json \<Rightarrow> string) \<Rightarrow> (string \<times> json) list \<Rightarrow> string list" where
  "scim_keys cfg str_of u =
     (let email = pick_scim_email str_of u;
          scim_user_name = user_name_of str_of u
      in (if email \<noteq> []
          then [lower email, lower (before_first CHR ''@'' email)] @ login_candidates cfg email
          else [])
         @ (if scim_user_name \<noteq> []
            then lower scim_user_name
                 # (if CHR ''@'' \<in> set scim_user_name
                    then lower (before_first CHR ''@'' scim_user_name)
                         # login_candidates cfg scim_user_name
                    else [])
            else []))"

text \<open>The records of the input that are dicts; the others are skipped.\<close>

definition dict_records :: "json list \<Rightarrow> (string \<times> json) list list" where
  "dict_records users = concat (map (\<lambda>x. case x of JDict u \<Rightarrow> [u] | _ \<Rightarrow> []) users)"

definition setdefault :: "scim_index \<Rightarrow> string \<Rightarrow> identity \<Rightarrow> scim_index" where
  "setdefault idx k v = (case idx k of None \<Rightarrow> idx(k \<mapsto> v) | Some _ \<Rightarrow> idx)"

text \<open>\<open>for k in keys: if not k: continue; idx.setdefault(k, ...)\<close>\<close>

fun add_keys :: "scim_index \<Rightarrow> identity \<Rightarrow> string list \<Rightarrow> scim_index" where
  "add_keys idx v [] = idx"
| "add_keys idx v (k # ks) = add_keys (if k = [] then idx else setdefault idx k v) v ks"

fun build_scim_index_from ::
  "config \<Rightarrow> (json \<Rightarrow> string) \<Rightarrow> scim_index \<Rightarrow> json list \<Rightarrow> scim_index" where
  "build_scim_index_from cfg str_of idx [] = idx"
| "build_scim_index_from cfg str_of idx (JDict u # us) =
     build_scim_index_from cfg str_of
       (add_keys idx (scim_identity str_of u) (scim_keys cfg str_of u)) us"
| "build_scim_index_from cfg str_of idx (_ # us) = build_scim_index_from cfg str_of idx us"

definition build_scim_index :: "config \<Rightarrow> (json \<Rightarrow> string) \<Rightarrow> json list \<Rightarrow> scim_index" where
  "build_scim_index cfg str_of scim_users = build_scim_index_from cfg str_of Map.empty scim_users"

section \<open>Copilot seats\<close>

definition seats_url :: "config \<Rightarrow> string" where
  "seats_url cfg = API_BASE cfg @ ''/enterprises/'' @ ENTERPRISE_SLUG cfg @ ''/copilot/billing/seats''"

definition seats_page ::
  "server \<Rightarrow> string \<Rightarrow> json list \<Rightarrow> int \<Rightarrow> world \<Rightarrow> (error + bool \<times> json list) \<times> world"
where
  "seats_page srv url all_seats page w =
     (case gh_get srv url [''per_page'' \<mapsto> 100, ''page'' \<mapsto> page] w of
        (None, w1) \<Rightarrow> (Inl AttributeError, w1)
      | (Some resp, w1) \<Rightarrow>
         (case raise_for_status resp url of
            Inl e \<Rightarrow> (Inl e, w1)
          | Inr _ \<Rightarrow>
           (case resp_json resp of
              Inl e \<Rightarrow> (Inl e, w1)
            | Inr j \<Rightarrow>
             (case py_or j (JDict []) of
                JDict payload \<Rightarrow>
                  (let seats = py_or (dict_get_default payload ''seats'' (JList [])) (JList []) in
                   case py_iter seats of
                     Inl e \<Rightarrow> (Inl e, w1)
                   | Inr ss \<Rightarrow> (Inr (\<not> int (length ss) < 100, all_seats @ ss), w1))
              | _ \<Rightarrow> (Inl AttributeError, w1)))))"

partial_function (option) fetch_seats_loop ::
  "server \<Rightarrow> string \<Rightarrow> json list \<Rightarrow> int \<Rightarrow> world \<Rightarrow> ((error + json list) \<times> world) option"
where
  "fetch_seats_loop srv url all_seats page w =
     (case seats_page srv url all_seats page w of
        (Inl e, w1) \<Rightarrow> Some (Inl e, w1)
      | (Inr (again, all_seats1), w1) \<Rightarrow>
          if again then fetch_seats_loop srv url all_seats1 (page + 1) w1
          else Some (Inr all_seats1, w1))"

text \<open>\<open>((s.get("assignee") or {}).get("login") or "").strip()\<close>\<close>

definition seat_login :: "(string \<times> json) list \<Rightarrow> error + string" where
  "seat_login s =
     (case py_or (dict_get s ''assignee'') (JDict []) of
        JDict assignee \<Rightarrow>
          (case py_or (dict_get assignee ''login'') (JStr []) of
             JStr l \<Rightarrow> Inr (strip l)
           | _ \<Rightarrow> Inl AttributeError)
      | _ \<Rightarrow> Inl AttributeError)"

text \<open>The mapping holds the seats themselves, each a dict, kept as its items.\<close>

type_synonym seat_map = "string \<rightharpoonup> (string \<times> json) list"

fun seats_by_login :: "seat_map \<Rightarrow> json list \<Rightarrow> error + seat_map" where
  "seats_by_login by_login [] = Inr by_login"
| "seats_by_login by_login (JDict s # ss) =
     (case seat_login s of
        Inl e \<Rightarrow> Inl e
      | Inr login \<Rightarrow> seats_by_login (if login \<noteq> [] then by_login(login \<mapsto> s) else by_login) ss)"
| "seats_by_login by_login (_ # ss) = Inl AttributeError"

definition fetch_copilot_billing_seats_by_login ::
  "config \<Rightarrow> server \<Rightarrow> world \<Rightarrow> ((error + seat_map) \<times> world) option"
where
  "fetch_copilot_billing_seats_by_login cfg srv w =
     (case fetch_seats_loop srv (seats_url cfg) [] 1 w of
        None \<Rightarrow> None
      | Some (Inl e, w1) \<Rightarrow> Some (Inl e, w1)
      | Some (Inr all_seats, w1) \<Rightarrow> Some (seats_by_login Map.empty all_seats, w1))"

subsection \<open>is_active\<close>

text \<open>
  A \<open>datetime\<close> is its position on the time line in microseconds together with its
  \<open>tzinfo\<close>. The parser \<open>datetime.fromisoformat\<close> (\<open>None\<close> where it raises) and the clock
  \<open>datetime.now(tz)\<close> are parameters; a call reads the clock once.
\<close>

definition thirty_days :: int where
  "thirty_days = 30 * 86400 * 1000000"

definition is_active ::
  "(string \<Rightarrow> (int \<times> 'tz) option) \<Rightarrow> ('tz \<Rightarrow> int) \<Rightarrow> json \<Rightarrow> string" where
  "is_active fromisoformat now last_activity_at =
     (if \<not> truthy last_activity_at then ''inactive''
      else case last_activity_at of
             JStr s \<Rightarrow>
               (case fromisoformat (replace_char CHR ''Z'' ''+00:00'' s) of
                  None \<Rightarrow> ''inactive''
                | Some (last_activity, tzinfo) \<Rightarrow>
                    if now tzinfo - last_activity \<le> thirty_days then ''active'' else ''inactive'')
           | _ \<Rightarrow> ''inactive'')"

section \<open>Teams, memberships and the report\<close>

definition teams_url :: "config \<Rightarrow> string" where
  "teams_url cfg = API_BASE cfg @ ''/enterprises/'' @ ENTERPRISE_SLUG cfg @ ''/teams''"

definition fetch_enterprise_teams ::
  "config \<Rightarrow> server \<Rightarrow> world \<Rightarrow> ((error + json list) \<times> world) option" where
  "fetch_enterprise_teams cfg srv w =
     fetch_rest_list_paged srv (teams_url cfg) [''teams'', ''items'', ''data''] 100 None w"

definition memberships_url :: "config \<Rightarrow> string \<Rightarrow> string" where
  "memberships_url cfg team_slug = teams_url cfg @ ''/'' @ team_slug @ ''/memberships''"

definition fetch_enterprise_team_memberships ::
  "config \<Rightarrow> server \<Rightarrow> string \<Rightarrow> world \<Rightarrow> ((error + json list) \<times> world) option" where
  "fetch_enterprise_team_memberships cfg srv team_slug w =
     fetch_rest_list_paged srv (memberships_url cfg team_slug)
       [''memberships'', ''items'', ''data''] 100 None w"

subsection \<open>parse_membership_login\<close>

text \<open>The inner \<open>for p in path\<close>: \<open>None\<close> is \<open>ok = False\<close>.\<close>

fun follow_path :: "json \<Rightarrow> string list \<Rightarrow> json option" where
  "follow_path cur [] = Some cur"
| "follow_path cur (p # ps) =
     (case cur of
        JDict kvs \<Rightarrow> (case map_of kvs p of Some v \<Rightarrow> follow_path v ps | None \<Rightarrow> None)
      | _ \<Rightarrow> None)"

fun first_login :: "json \<Rightarrow> string list list \<Rightarrow> string" where
  "first_login m [] = []"
| "first_login m (path # paths) =
     (case follow_path m path of
        Some (JStr s) \<Rightarrow> if strip s \<noteq> [] then strip s else first_login m paths
      | _ \<Rightarrow> first_login m paths)"

definition parse_membership_login :: "json \<Rightarrow> string" where
  "parse_membership_login m =
     (case m of
        JDict kvs \<Rightarrow> first_login m [[''user'', ''login''], [''member'', ''login''], [''login'']]
      | _ \<Rightarrow> [])"

subsection \<open>The join in main\<close>

record report_row =
  r_enterprise :: string
  r_team_name :: string
  r_team_slug :: string
  r_login :: string
  r_name :: string
  r_email :: string
  r_scim_userName :: string
  r_copilot_assigned :: string
  r_copilot_status :: json
  r_plan_type :: json
  r_last_activity_at :: json
  r_active_status :: string
  r_seat_created_at :: json
  r_seat_updated_at :: json

text \<open>\<open>(seat or {}).get(k, "") if seat else ""\<close>, and \<open>if seat\<close> itself.\<close>

definition seat_field :: "(string \<times> json) list option \<Rightarrow> string \<Rightarrow> json" where
  "seat_field seat k =
     (case seat of
        Some kvs \<Rightarrow> if kvs \<noteq> [] then dict_get_default kvs k (JStr []) else JStr []
      | None \<Rightarrow> JStr [])"

definition seat_present :: "(string \<times> json) list option \<Rightarrow> bool" where
  "seat_present seat = (case seat of Some kvs \<Rightarrow> kvs \<noteq> [] | None \<Rightarrow> False)"

definition report_row_for ::
  "config \<Rightarrow> (string \<Rightarrow> (int \<times> 'tz) option) \<Rightarrow> ('tz \<Rightarrow> int) \<Rightarrow> scim_index \<Rightarrow> seat_map
   \<Rightarrow> string \<Rightarrow> string \<Rightarrow> string \<Rightarrow> report_row"
where
  "report_row_for cfg fromisoformat now scim_index by_login team_name team_slug login =
     (let key = strip (lower login);
          scim = scim_index key;
          seat = by_login login
      in \<lparr>r_enterprise = ENTERPRISE_SLUG cfg,
          r_team_name = team_name,
          r_team_slug = team_slug,
          r_login = login,
          r_name = (case scim of Some i \<Rightarrow> id_name i | None \<Rightarrow> []),
          r_email = (case scim of Some i \<Rightarrow> id_email i | None \<Rightarrow> []),
          r_scim_userName = (case scim of Some i \<Rightarrow> id_scim_userName i | None \<Rightarrow> []),
          r_copilot_assigned = (if seat_present seat then ''yes'' else ''no''),
          r_copilot_status = seat_field seat ''status'',
          r_plan_type = seat_field seat ''plan_type'',
          r_last_activity_at = seat_field seat ''last_activity_at'',
          r_active_status =
            (case seat of
               Some kvs \<Rightarrow>
                 if kvs \<noteq> [] then is_active fromisoformat now (dict_get kvs ''last_activity_at'')
                 else ''inactive''
             | None \<Rightarrow> ''inactive''),
          r_seat_created_at = seat_field seat ''created_at'',
          r_seat_updated_at = seat_field seat ''updated_at''\<rparr>)"

text \<open>The loop \<open>for m in memberships\<close>, appending to \<open>rows\<close>.\<close>

fun membership_rows ::
  "config \<Rightarrow> (string \<Rightarrow> (int \<times> 'tz) option) \<Rightarrow> ('tz \<Rightarrow> int) \<Rightarrow> scim_index \<Rightarrow> seat_map
   \<Rightarrow> string \<Rightarrow> string \<Rightarrow> report_row list \<Rightarrow> json list \<Rightarrow> report_row list"
where
  "membership_rows cfg fromisoformat now scim_index by_login team_name team_slug rows [] = rows"
| "membership_rows cfg fromisoformat now scim_index by_login team_name team_slug rows (m # ms) =
     (let login = parse_membership_login m
      in if login = []
         then membership_rows cfg fromisoformat now scim_index by_login team_name team_slug rows ms
         else membership_rows cfg fromisoformat now scim_index by_login team_name team_slug
                (rows @ [report_row_for cfg fromisoformat now scim_index by_login
                           team_name team_slug login]) ms)"

text \<open>\<open>(a or b or c or "").strip()\<close> on the fields of a team.\<close>

definition stripped_field :: "json \<Rightarrow> error + string" where
  "stripped_field v = (case v of JStr s \<Rightarrow> Inr (strip s) | _ \<Rightarrow> Inl AttributeError)"

definition team_name_of :: "(string \<times> json) list \<Rightarrow> error + string" where
  "team_name_of t =
     stripped_field (py_or (dict_get t ''name'')
                      (py_or (dict_get t ''display_name'') (py_or (dict_get t ''slug'') (JStr []))))"

definition team_slug_of :: "(string \<times> json) list \<Rightarrow> error + string" where
  "team_slug_of t =
     stripped_field (py_or (dict_get t ''slug'') (py_or (dict_get t ''team_slug'') (JStr [])))"

text \<open>The loop \<open>for i, t in enumerate(teams, start=1)\<close>.\<close>

fun team_rows ::
  "config \<Rightarrow> (string \<Rightarrow> (int \<times> 'tz) option) \<Rightarrow> ('tz \<Rightarrow> int) \<Rightarrow> server \<Rightarrow> scim_index \<Rightarrow> seat_map
   \<Rightarrow> report_row list \<Rightarrow> json list \<Rightarrow> world \<Rightarrow> ((error + report_row list) \<times> world) option"
where
  "team_rows cfg fromisoformat now srv scim_index by_login rows [] w = Some (Inr rows, w)"
| "team_rows cfg fromisoformat now srv scim_index by_login rows (JDict t # ts) w =
     (case team_name_of t of
        Inl e \<Rightarrow> Some (Inl e, w)
      | Inr team_name \<Rightarrow>
         (case team_slug_of t of
            Inl e \<Rightarrow> Some (Inl e, w)
          | Inr team_slug \<Rightarrow>
             if team_slug = []
             then team_rows cfg fromisoformat now srv scim_index by_login rows ts w
             else (case fetch_enterprise_team_memberships cfg srv team_slug w of
                     None \<Rightarrow> None
                   | Some (Inl e, w1) \<Rightarrow> Some (Inl e, w1)
                   | Some (Inr memberships, w1) \<Rightarrow>
                       team_rows cfg fromisoformat now srv scim_index by_login
                         (membership_rows cfg fromisoformat now scim_index by_login
                            team_name team_slug rows memberships) ts w1)))"
| "team_rows cfg fromisoformat now srv scim_index by_login rows (_ # ts) w =
     Some (Inl AttributeError, w)"

text \<open>\<open>main\<close> up to the rows handed to the CSV writer.\<close>

definition main_rows ::
  "config \<Rightarrow> (json \<Rightarrow> string) \<Rightarrow> (string \<Rightarrow> int option) \<Rightarrow> (string \<Rightarrow> (int \<times> 'tz) option)
   \<Rightarrow> ('tz \<Rightarrow> int) \<Rightarrow> server \<Rightarrow> world \<Rightarrow> ((error + report_row list) \<times> world) option"
where
  "main_rows cfg str_of int_of_str fromisoformat now srv w =
     (case fetch_all_scim_users cfg int_of_str srv w of
        None \<Rightarrow> None
      | Some (Inl e, w1) \<Rightarrow> Some (Inl e, w1)
      | Some (Inr scim_users, w1) \<Rightarrow>
         (case fetch_copilot_billing_seats_by_login cfg srv w1 of
            None \<Rightarrow> None
          | Some (Inl e, w2) \<Rightarrow> Some (Inl e, w2)
          | Some (Inr by_login, w2) \<Rightarrow>
             (case fetch_enterprise_teams cfg srv w2 of
                None \<Rightarrow> None
              | Some (Inl e, w3) \<Rightarrow> Some (Inl e, w3)
              | Some (Inr teams, w3) \<Rightarrow>
                  team_rows cfg fromisoformat now srv
                    (build_scim_index cfg str_of scim_users) by_login [] teams w3)))"

section \<open>The metrics collector\<close>

text \<open>
  \<open>requests.get\<close> without retries; \<open>clock\<close> is \<open>int(time.time())\<close> as a function of the
  number of GETs issued. Log lines are not part of the model.
\<close>

definition header_int :: "(string \<Rightarrow> int option) \<Rightarrow> string option \<Rightarrow> int \<Rightarrow> error + int" where
  "header_int int_of_str h d =
     (case h of
        None \<Rightarrow> Inr d
      | Some s \<Rightarrow> (case int_of_str s of None \<Rightarrow> Inl ValueError | Some n \<Rightarrow> Inr n))"

definition handle_rate_limit ::
  "(string \<Rightarrow> int option) \<Rightarrow> (nat \<Rightarrow> int) \<Rightarrow> response \<Rightarrow> world \<Rightarrow> error + world" where
  "handle_rate_limit int_of_str clock resp w =
     (case header_int int_of_str (ratelimit_remaining resp) 1 of
        Inl e \<Rightarrow> Inl e
      | Inr remaining \<Rightarrow>
         (case header_int int_of_str (ratelimit_reset resp) 0 of
            Inl e \<Rightarrow> Inl e
          | Inr reset_time \<Rightarrow>
              if remaining = 0
              then Inr (sleep (max (reset_time - clock (calls w)) 1 + 2) w)
              else Inr w))"

text \<open>
  One pass through the body of \<open>while True\<close> of \<open>fetch_team_metrics\<close> and of the metrics
  script's \<open>fetch_enterprise_teams\<close>; the two differ in the url only.
\<close>

definition link_page ::
  "(string \<Rightarrow> int option) \<Rightarrow> (nat \<Rightarrow> int) \<Rightarrow> server \<Rightarrow> string \<Rightarrow> json list \<Rightarrow> int \<Rightarrow> world
   \<Rightarrow> (error + bool \<times> json list) \<times> world"
where
  "link_page int_of_str clock srv url all_entries page w =
     (case http_get srv url [''per_page'' \<mapsto> 100, ''page'' \<mapsto> page] w of
        (resp, w1) \<Rightarrow>
         (case handle_rate_limit int_of_str clock resp w1 of
            Inl e \<Rightarrow> (Inl e, w1)
          | Inr w2 \<Rightarrow>
              if status_code resp = 404 then (Inr (False, all_entries), w2)
              else if status_code resp \<noteq> 200 then (Inr (False, all_entries), w2)
              else (case resp_json resp of
                      Inl e \<Rightarrow> (Inl e, w2)
                    | Inr data \<Rightarrow>
                        if \<not> truthy data then (Inr (False, all_entries), w2)
                        else (case py_iter data of
                                Inl e \<Rightarrow> (Inl e, w2)
                              | Inr items \<Rightarrow>
                                  if links_next resp
                                  then (Inr (True, all_entries @ items), sleep 1 w2)
                                  else (Inr (False, all_entries @ items), w2)))))"

partial_function (option) link_loop ::
  "(string \<Rightarrow> int option) \<Rightarrow> (nat \<Rightarrow> int) \<Rightarrow> server \<Rightarrow> string \<Rightarrow> json list \<Rightarrow> int \<Rightarrow> world
   \<Rightarrow> ((error + json list) \<times> world) option"
where
  "link_loop int_of_str clock srv url all_entries page w =
     (case link_page int_of_str clock srv url all_entries page w of
        (Inl e, w1) \<Rightarrow> Some (Inl e, w1)
      | (Inr (again, all_entries1), w1) \<Rightarrow>
          if again then link_loop int_of_str clock srv url all_entries1 (page + 1) w1
          else Some (Inr all_entries1, w1))"



definition metrics_fetch_enterprise_teams ::
  "string \<Rightarrow> (string \<Rightarrow> int option) \<Rightarrow> (nat \<Rightarrow> int) \<Rightarrow> server \<Rightarrow> world
   \<Rightarrow> ((error + json list) \<times> world) option"
where
  "metrics_fetch_enterprise_teams enterprise int_of_str clock srv w =
     link_loop int_of_str clock srv
       (''https://api.github.com/enterprises/'' @ enterprise @ ''/teams'') [] 1 w"

section \<open>Flattening metrics entries\<close>

text \<open>
  A row is the list of the 19 cells given to \<open>csv_writer.writerow\<close>. A call writes rows
  until it returns or raises: its outcome is the rows written and the error, if any,
  that ended it.
\<close>

type_synonym csv_row = "json list"
type_synonym written = "csv_row list \<times> error option"

definition raised :: "error \<Rightarrow> written" where
  "raised e = ([], Some e)"

fun then_rows :: "written \<Rightarrow> written \<Rightarrow> written" where
  "then_rows (rows, Some e) later = (rows, Some e)"
| "then_rows (rows, None) (rows1, e) = (rows @ rows1, e)"

fun for_each :: "('a \<Rightarrow> written) \<Rightarrow> 'a list \<Rightarrow> written" where
  "for_each f [] = ([], None)"
| "for_each f (x # xs) = then_rows (f x) (for_each f xs)"

text \<open>\<open>v.get(k, d)\<close> on a value that need not be a dict.\<close>

definition obj_get :: "json \<Rightarrow> string \<Rightarrow> json \<Rightarrow> error + json" where
  "obj_get v k d = (case v of JDict kvs \<Rightarrow> Inr (dict_get_default kvs k d) | _ \<Rightarrow> Inl AttributeError)"

text \<open>\<open>for x in v.get(k, [])\<close>: the values the loop runs over.\<close>

definition iter_field :: "json \<Rightarrow> string \<Rightarrow> error + json list" where
  "iter_field v k = (case obj_get v k (JList []) of Inl e \<Rightarrow> Inl e | Inr xs \<Rightarrow> py_iter xs)"

text \<open>What a metrics entry shares among all its rows.\<close>

record shared =
  sh_enterprise_id :: json
  sh_team_name :: json
  sh_date :: json
  sh_total_active_users :: json
  sh_total_chat_engaged_users :: json
  sh_total_pull_request_engaged_users :: json

definition language_row :: "shared \<Rightarrow> json \<Rightarrow> json \<Rightarrow> (string \<times> json) list \<Rightarrow> csv_row" where
  "language_row sh editor_name model_name language =
     [sh_enterprise_id sh, sh_team_name sh, sh_date sh, editor_name, model_name,
      dict_get_default language ''name'' (JStr ''N/A''),
      dict_get_default language ''total_engaged_users'' (JInt 0),
      dict_get_default language ''total_code_acceptances'' (JInt 0),
      dict_get_default language ''total_code_suggestions'' (JInt 0),
      dict_get_default language ''total_code_lines_accepted'' (JInt 0),
      dict_get_default language ''total_code_lines_suggested'' (JInt 0),
      sh_total_active_users sh, sh_total_chat_engaged_users sh,
      sh_total_pull_request_engaged_users sh,
      JStr [], JInt 0, JBool False, JInt 0, JInt 0]"

definition language_rows :: "shared \<Rightarrow> json \<Rightarrow> json \<Rightarrow> json \<Rightarrow> written" where
  "language_rows sh editor_name model_name language =
     (case language of
        JDict l \<Rightarrow> ([language_row sh editor_name model_name l], None)
      | _ \<Rightarrow> raised AttributeError)"

definition model_rows :: "shared \<Rightarrow> json \<Rightarrow> json \<Rightarrow> written" where
  "model_rows sh editor_name model =
     (case model of
        JDict m \<Rightarrow>
          (case py_iter (dict_get_default m ''languages'' (JList [])) of
             Inl e \<Rightarrow> raised e
           | Inr languages \<Rightarrow>
               for_each (language_rows sh editor_name (dict_get_default m ''name'' (JStr ''N/A'')))
                 languages)
      | _ \<Rightarrow> raised AttributeError)"

definition editor_rows :: "shared \<Rightarrow> json \<Rightarrow> written" where
  "editor_rows sh editor =
     (case editor of
        JDict e \<Rightarrow>
          (case py_iter (dict_get_default e ''models'' (JList [])) of
             Inl err \<Rightarrow> raised err
           | Inr models \<Rightarrow>
               for_each (model_rows sh (dict_get_default e ''name'' (JStr ''N/A''))) models)
      | _ \<Rightarrow> raised AttributeError)"

definition chat_row :: "shared \<Rightarrow> json \<Rightarrow> (string \<times> json) list \<Rightarrow> csv_row" where
  "chat_row sh chat_editor_name model =
     [sh_enterprise_id sh, sh_team_name sh, sh_date sh, JStr [], JStr [], JStr [],
      JInt 0, JInt 0, JInt 0, JInt 0, JInt 0,
      sh_total_active_users sh, sh_total_chat_engaged_users sh,
      sh_total_pull_request_engaged_users sh,
      chat_editor_name,
      dict_get_default model ''total_chats'' (JInt 0),
      dict_get_default model ''is_custom_model'' (JBool False),
      dict_get_default model ''total_chat_copy_events'' (JInt 0),
      dict_get_default model ''total_chat_insertion_events'' (JInt 0)]"

definition chat_model_rows :: "shared \<Rightarrow> json \<Rightarrow> json \<Rightarrow> written" where
  "chat_model_rows sh chat_editor_name model =
     (case model of
        JDict m \<Rightarrow> ([chat_row sh chat_editor_name m], None)
      | _ \<Rightarrow> raised AttributeError)"

definition chat_editor_rows :: "shared \<Rightarrow> json \<Rightarrow> written" where
  "chat_editor_rows sh chat_editor =
     (case chat_editor of
        JDict e \<Rightarrow>
          (case py_iter (dict_get_default e ''models'' (JList [])) of
             Inl err \<Rightarrow> raised err
           | Inr models \<Rightarrow>
               for_each (chat_model_rows sh (dict_get_default e ''name'' (JStr ''N/A''))) models)
      | _ \<Rightarrow> raised AttributeError)"

text \<open>The body of \<open>for entry in entries\<close>.\<close>

definition entry_rows :: "json \<Rightarrow> json \<Rightarrow> json \<Rightarrow> written" where
  "entry_rows enterprise_id team_name entry =
     (case entry of
        JDict e \<Rightarrow>
          (case obj_get (dict_get_default e ''copilot_dotcom_chat'' (JDict []))
                  ''total_engaged_users'' (JInt 0) of
             Inl err \<Rightarrow> raised err
           | Inr total_chat_engaged_users \<Rightarrow>
              (case obj_get (dict_get_default e ''copilot_dotcom_pull_requests'' (JDict []))
                      ''total_engaged_users'' (JInt 0) of
                 Inl err \<Rightarrow> raised err
               | Inr total_pull_request_engaged_users \<Rightarrow>
                  (let sh = \<lparr>sh_enterprise_id = enterprise_id, sh_team_name = team_name,
                             sh_date = dict_get_default e ''date'' (JStr ''N/A''),
                             sh_total_active_users = dict_get_default e ''total_active_users'' (JInt 0),
                             sh_total_chat_engaged_users = total_chat_engaged_users,
                             sh_total_pull_request_engaged_users = total_pull_request_engaged_users\<rparr>
                   in then_rows
                        (case iter_field (dict_get_default e ''copilot_ide_code_completions'' (JDict []))
                                ''editors'' of
                           Inl err \<Rightarrow> raised err
                         | Inr editors \<Rightarrow> for_each (editor_rows sh) editors)
                        (case iter_field (dict_get_default e ''copilot_ide_chat'' (JDict [])) ''editors'' of
                           Inl err \<Rightarrow> raised err
                         | Inr chat_editors \<Rightarrow> for_each (chat_editor_rows sh) chat_editors))))
      | _ \<Rightarrow> raised AttributeError)"

definition write_to_csv :: "json \<Rightarrow> json \<Rightarrow> json list \<Rightarrow> written" where
  "write_to_csv enterprise_id team_name entries = for_each (entry_rows enterprise_id team_name) entries"

subsection \<open>The entry as the specification reads it\<close>













section \<open>Example inputs\<close>

definition plain_response :: "int \<Rightarrow> string \<Rightarrow> json option \<Rightarrow> response" where
  "plain_response st txt j =
     \<lparr>status_code = st, retry_after = None, ratelimit_remaining = None, ratelimit_reset = None,
      body_text = txt, body = j, links_next = False\<rparr>"

definition w0 :: world where
  "w0 = \<lparr>calls = 0, slept = []\<rparr>"



definition newgen_cfg :: config where
  "newgen_cfg = \<lparr>API_BASE = ''https://api.github.com'', ENTERPRISE_SLUG = ''Newgen-EMU'',
                  LOGIN_SUFFIX_env = []\<rparr>"

text \<open>Two directory records that claim the same keys, with a non-record between them.\<close>

definition two_amys :: "json list" where
  "two_amys =
     [JDict [(''userName'', JStr ''amy@co.com''), (''displayName'', JStr ''Amy A'')],
      JStr ''junk'',
      JDict [(''userName'', JStr ''AMY@co.com''), (''displayName'', JStr ''Amy B'')]]"

text \<open>A parser that knows one timestamp, placed at the origin of the time line.\<close>

definition one_stamp :: "string \<Rightarrow> (int \<times> unit) option" where
  "one_stamp s = (if s = ''2024-05-01T00:00:00+00:00'' then Some (0, ()) else None)"

text \<open>A seat assigned to the login \<open>Alice\<close>.\<close>

definition alice_seat :: "(string \<times> json) list" where
  "alice_seat = [(''assignee'', JDict [(''login'', JStr ''Alice'')]), (''status'', JStr ''ok'')]"

text \<open>A membership of the login \<open>ghost\<close> and a membership record with no login.\<close>

definition ghost_membership :: json where
  "ghost_membership = JDict [(''user'', JDict [(''login'', JStr ''ghost'')])]"

definition blank_membership :: json where
  "blank_membership = JDict [(''id'', JInt 7)]"

text \<open>A server whose every page is the two memberships above.\<close>

definition memberships_server :: server where
  "memberships_server n url ps =
     plain_response 200 ''[...]'' (Some (JList [ghost_membership, blank_membership]))"

definition core_team :: "(string \<times> json) list" where
  "core_team = [(''name'', JStr ''Core''), (''slug'', JStr ''core'')]"

definition amy_identity :: identity where
  "amy_identity = \<lparr>id_name = ''Amy A'', id_email = ''amy@co.com'', id_scim_userName = ''amy@co.com''\<rparr>"








text \<open>
  Directory servers: one that serves three users in pages of two; one whose first page
  reports \<open>itemsPerPage = 0\<close> while carrying a user; one whose reported total grows with
  every request.
\<close>

definition scim_body :: "json list \<Rightarrow> int \<Rightarrow> int \<Rightarrow> json" where
  "scim_body rs total_results items_per_page =
     JDict [(''Resources'', JList rs), (''totalResults'', JInt total_results),
            (''itemsPerPage'', JInt items_per_page)]"

definition directory_server :: server where
  "directory_server n url ps =
     (if ps ''startIndex'' = Some 1
      then plain_response 200 ''{...}'' (Some (scim_body [JStr ''u1'', JStr ''u2''] 3 2))
      else plain_response 200 ''{...}'' (Some (scim_body [JStr ''u3''] 3 2)))"

definition zero_page_server :: server where
  "zero_page_server n url ps =
     (if ps ''startIndex'' = Some 1
      then plain_response 200 ''{...}'' (Some (scim_body [JStr ''u1''] 2 0))
      else plain_response 200 ''{...}'' (Some (scim_body [] 2 0)))"

definition growing_server :: server where
  "growing_server n url ps = plain_response 200 ''{...}'' (Some (scim_body [] (int n + 2) 1))"

definition empty_page_server :: server where
  "empty_page_server n url ps = plain_response 200 ''{...}'' (Some (scim_body [] 40 0))"

text \<open>
  Team servers for the metrics script: one that answers with an empty object, one that
  wraps the teams under a key, one that answers with the bare array.
\<close>

definition empty_object_server :: server where
  "empty_object_server n url ps = plain_response 200 ''{}'' (Some (JDict []))"

definition wrapped_teams_server :: server where
  "wrapped_teams_server n url ps =
     plain_response 200 ''{...}'' (Some (JDict [(''teams'', JList [JStr ''team-a''])]))"

definition bare_teams_server :: server where
  "bare_teams_server n url ps = plain_response 200 ''[...]'' (Some (JList [JStr ''team-a'']))"

section \<open>The retrying client\<close>

lemma gh_get_attempts_spec:
  "gh_get_attempts srv url ps as l w = (r, w') \<Longrightarrow>
   (as = [] \<and> r = l \<and> w' = w) \<or>
   (\<exists>k < length as.
      r = Some (srv (calls w + k) url ps) \<and>
      calls w' = calls w + k + 1 \<and>
      (\<forall>i<k. retry_status (status_code (srv (calls w + i) url ps))) \<and>
      (k + 1 < length as \<longrightarrow> \<not> retry_status (status_code (srv (calls w + k) url ps))) \<and>
      slept w' = slept w @ map (\<lambda>i. retry_wait (as ! i) (srv (calls w + i) url ps))
         [0 ..< (if retry_status (status_code (srv (calls w + k) url ps)) then k + 1 else k)])"
proof (induction as arbitrary: l w)
  case Nil
  then show ?case by simp
next
  case (Cons a as)
  let ?resp = "srv (calls w) url ps"
  let ?w1 = "w\<lparr>calls := calls w + 1\<rparr>"
  show ?case
  proof (cases "retry_status (status_code ?resp)")
    case False
    with Cons.prems have "r = Some ?resp" "w' = ?w1"
      by (auto simp: http_get_def)
    with False show ?thesis
      by (intro disjI2 exI[of _ 0]) simp
  next
    case True
    let ?w2 = "sleep (retry_wait a ?resp) ?w1"
    from True Cons.prems have rec: "gh_get_attempts srv url ps as (Some ?resp) ?w2 = (r, w')"
      by (simp add: http_get_def)
    from Cons.IH[OF rec] show ?thesis
    proof
      assume "as = [] \<and> r = Some ?resp \<and> w' = ?w2"
      with True show ?thesis
        by (intro disjI2 exI[of _ 0]) (simp add: sleep_def)
    next
      assume "\<exists>k<length as.
      r = Some (srv (calls ?w2 + k) url ps) \<and>
      calls w' = calls ?w2 + k + 1 \<and>
      (\<forall>i<k. retry_status (status_code (srv (calls ?w2 + i) url ps))) \<and>
      (k + 1 < length as \<longrightarrow> \<not> retry_status (status_code (srv (calls ?w2 + k) url ps))) \<and>
      slept w' = slept ?w2 @ map (\<lambda>i. retry_wait (as ! i) (srv (calls ?w2 + i) url ps))
         [0 ..< (if retry_status (status_code (srv (calls ?w2 + k) url ps)) then k + 1 else k)]"
      then obtain k where k: "k < length as"
        "r = Some (srv (calls ?w2 + k) url ps)"
        "calls w' = calls ?w2 + k + 1"
        "\<forall>i<k. retry_status (status_code (srv (calls ?w2 + i) url ps))"
        "k + 1 < length as \<longrightarrow> \<not> retry_status (status_code (srv (calls ?w2 + k) url ps))"
        "slept w' = slept ?w2 @ map (\<lambda>i. retry_wait (as ! i) (srv (calls ?w2 + i) url ps))
         [0 ..< (if retry_status (status_code (srv (calls ?w2 + k) url ps)) then k + 1 else k)]"
        by blast
      have c2: "calls ?w2 = Suc (calls w)" by (simp add: sleep_def)
      have s2: "slept ?w2 = slept w @ [retry_wait a ?resp]" by (simp add: sleep_def)
      have all: "\<forall>i<Suc k. retry_status (status_code (srv (calls w + i) url ps))"
        using k(4) True c2 by (auto simp: less_Suc_eq_0_disj)
      have shift: "\<And>m. map (\<lambda>i. retry_wait ((a # as) ! i) (srv (calls w + i) url ps)) [0 ..< Suc m]
          = retry_wait a ?resp # map (\<lambda>i. retry_wait (as ! i) (srv (calls ?w2 + i) url ps)) [0 ..< m]"
        by (simp add: upt_conv_Cons map_Suc_upt[symmetric] sleep_def del: upt_Suc)
      show ?thesis
        apply (intro disjI2 exI[of _ "Suc k"])
        using k all c2 s2 shift[of k] shift[of "Suc k"]
        by (auto simp del: upt_Suc)
    qed
  qed
qed

lemma attempt_nth: "i < 6 \<Longrightarrow> [1, 2, 3, 4, 5, 6 :: int] ! i = int i + 1"
  by (auto simp: nth_Cons' numeral_eq_Suc less_Suc_eq)

lemma gh_get_spec:
  assumes "gh_get srv url ps w = (r, w1)"
  shows "\<exists>k<6.
      r = Some (srv (calls w + k) url ps) \<and>
      calls w1 = calls w + k + 1 \<and>
      (\<forall>i<k. retry_status (status_code (srv (calls w + i) url ps))) \<and>
      (k < 5 \<longrightarrow> \<not> retry_status (status_code (srv (calls w + k) url ps))) \<and>
      slept w1 = slept w @ map (\<lambda>i. retry_wait (int i + 1) (srv (calls w + i) url ps))
         [0 ..< (if retry_status (status_code (srv (calls w + k) url ps)) then k + 1 else k)]"
proof -
  let ?as = "[1, 2, 3, 4, 5, 6 :: int]"
  from assms have "gh_get_attempts srv url ps ?as None w = (r, w1)"
    by (simp add: gh_get_def)
  from gh_get_attempts_spec[OF this] obtain k where k: "k < 6"
    "r = Some (srv (calls w + k) url ps)" "calls w1 = calls w + k + 1"
    "\<forall>i<k. retry_status (status_code (srv (calls w + i) url ps))"
    "k + 1 < 6 \<longrightarrow> \<not> retry_status (status_code (srv (calls w + k) url ps))"
    "slept w1 = slept w @ map (\<lambda>i. retry_wait (?as ! i) (srv (calls w + i) url ps))
         [0 ..< (if retry_status (status_code (srv (calls w + k) url ps)) then k + 1 else k)]"
    by auto
  have "map (\<lambda>i. retry_wait (?as ! i) (srv (calls w + i) url ps)) [0 ..< m]
      = map (\<lambda>i. retry_wait (int i + 1) (srv (calls w + i) url ps)) [0 ..< m]" if "m \<le> 6" for m
    using that by (intro map_cong refl) (simp add: attempt_nth)
  with k have "slept w1 = slept w @ map (\<lambda>i. retry_wait (int i + 1) (srv (calls w + i) url ps))
         [0 ..< (if retry_status (status_code (srv (calls w + k) url ps)) then k + 1 else k)]"
    by auto
  with k show ?thesis by (intro exI[of _ k]) auto
qed



section \<open>The payload normaliser\<close>

lemma first_list_value_Some:
  "first_list_value kvs keys = Some v \<Longrightarrow>
   \<exists>i<length keys. dict_get kvs (keys ! i) = JList v \<and> (\<forall>j<i. \<not> is_list (dict_get kvs (keys ! j)))"
proof (induction keys)
  case Nil
  then show ?case by simp
next
  case (Cons k ks)
  show ?case
  proof (cases "is_list (dict_get kvs k)")
    case True
    with Cons.prems have "dict_get kvs k = JList v"
      by (auto simp: is_list_def split: json.splits)
    then show ?thesis by (intro exI[of _ 0]) simp
  next
    case False
    with Cons.prems have "first_list_value kvs ks = Some v"
      by (auto simp: is_list_def split: json.splits)
    from Cons.IH[OF this] obtain i where i: "i < length ks" "dict_get kvs (ks ! i) = JList v"
      "\<forall>j<i. \<not> is_list (dict_get kvs (ks ! j))" by blast
    with False show ?thesis
      by (intro exI[of _ "Suc i"]) (auto simp: less_Suc_eq_0_disj)
  qed
qed

lemma first_list_value_first:
  "i < length keys \<Longrightarrow> dict_get kvs (keys ! i) = JList v \<Longrightarrow>
   \<forall>j<i. \<not> is_list (dict_get kvs (keys ! j)) \<Longrightarrow> first_list_value kvs keys = Some v"
proof (induction keys arbitrary: i)
  case Nil
  then show ?case by simp
next
  case (Cons k ks)
  show ?case
  proof (cases i)
    case 0
    with Cons.prems show ?thesis by simp
  next
    case (Suc n)
    with Cons.prems have "\<not> is_list (dict_get kvs k)" by auto
    moreover have "\<forall>j<n. \<not> is_list (dict_get kvs (ks ! j))"
    proof (intro allI impI)
      fix j assume "j < n"
      then have "Suc j < i" using Suc by simp
      with Cons.prems(3) have "\<not> is_list (dict_get kvs ((k # ks) ! Suc j))" by blast
      then show "\<not> is_list (dict_get kvs (ks ! j))" by simp
    qed
    then have "first_list_value kvs ks = Some v"
      using Cons.IH[of n] Cons.prems Suc by auto
    ultimately show ?thesis by (auto simp: is_list_def split: json.splits)
  qed
qed

lemma first_list_value_None:
  "first_list_value kvs keys = None \<longleftrightarrow> (\<forall>k\<in>set keys. \<not> is_list (dict_get kvs k))"
  by (induction keys) (auto simp: is_list_def split: json.splits)

lemma normalize_list_payload_cases:
  "(\<forall>xs. payload = JList xs \<longrightarrow> normalize_list_payload payload keys = Inr xs) \<and>
   (\<forall>kvs i v. payload = JDict kvs \<and> i < length keys \<and> dict_get kvs (keys ! i) = JList v \<and>
        (\<forall>j<i. \<not> is_list (dict_get kvs (keys ! j)))
      \<longrightarrow> normalize_list_payload payload keys = Inr v) \<and>
   (\<not> is_list payload \<and> (\<forall>kvs. payload = JDict kvs \<longrightarrow> (\<forall>k\<in>set keys. \<not> is_list (dict_get kvs k)))
      \<longrightarrow> normalize_list_payload payload keys = Inl (unsupported_shape payload)) \<and>
   (normalize_list_payload payload keys = Inr [] \<longrightarrow>
      payload = JList [] \<or>
      (\<exists>kvs k. payload = JDict kvs \<and> k \<in> set keys \<and> dict_get kvs k = JList []))"
proof (intro conjI allI impI)
  fix xs assume "payload = JList xs"
  then show "normalize_list_payload payload keys = Inr xs"
    by (simp add: normalize_list_payload_def)
next
  fix kvs i v
  assume a: "payload = JDict kvs \<and> i < length keys \<and> dict_get kvs (keys ! i) = JList v \<and>
        (\<forall>j<i. \<not> is_list (dict_get kvs (keys ! j)))"
  then have "first_list_value kvs keys = Some v"
    using first_list_value_first[of i keys kvs v] by blast
  with a show "normalize_list_payload payload keys = Inr v"
    by (simp add: normalize_list_payload_def)
next
  assume a: "\<not> is_list payload \<and>
     (\<forall>kvs. payload = JDict kvs \<longrightarrow> (\<forall>k\<in>set keys. \<not> is_list (dict_get kvs k)))"
  show "normalize_list_payload payload keys = Inl (unsupported_shape payload)"
  proof (cases payload)
    case (JDict kvs)
    with a have "first_list_value kvs keys = None"
      by (simp add: first_list_value_None)
    with JDict show ?thesis by (simp add: normalize_list_payload_def)
  qed (use a in \<open>simp_all add: normalize_list_payload_def is_list_def\<close>)
next
  assume r: "normalize_list_payload payload keys = Inr []"
  show "payload = JList [] \<or>
      (\<exists>kvs k. payload = JDict kvs \<and> k \<in> set keys \<and> dict_get kvs k = JList [])"
  proof (cases payload)
    case (JList xs)
    with r show ?thesis by (simp add: normalize_list_payload_def)
  next
    case (JDict kvs)
    with r have "first_list_value kvs keys = Some []"
      by (simp add: normalize_list_payload_def split: option.splits)
    from first_list_value_Some[OF this] JDict show ?thesis
      by (metis nth_mem)
  qed (use r in \<open>simp_all add: normalize_list_payload_def\<close>)
qed

section \<open>Login candidates\<close>

lemmas string_evals = before_first_def lower_def lower_char_def strip_def strip_chars_def
  is_space_def strip_hyphen_def replace_char_def is_alnum_def


text \<open>
  C1, as the code has it. Let the email, trimmed and lowercased, contain \<open>@\<close> and let
  its local part \<open>L\<close> (the text before the first \<open>@\<close>, trimmed) be non-empty. For each
  of the six variants of \<open>L\<close>, the value \<open>v\<close> left after stripping leading and trailing
  hyphens and then surrounding whitespace is, when non-empty, in the returned set, and so
  is \<open>v_suffix\<close> when the suffix token is non-empty. The set is non-empty exactly when
  some variant leaves a non-empty \<open>v\<close>.
\<close>

theorem login_candidates_cover:
  assumes "CHR ''@'' \<in> set (lower (strip email))"
    and "L = strip (before_first CHR ''@'' (lower (strip email)))"
    and "L \<noteq> []"
  shows "(\<forall>v0 \<in> {L, replace_char CHR ''.'' [] L, replace_char CHR ''.'' ''-'' L,
                  replace_char CHR ''_'' ''-'' L, filter (\<lambda>c. is_alnum c \<or> c = CHR ''-'') L,
                  filter is_alnum L}.
            strip (strip_hyphen v0) \<noteq> [] \<longrightarrow>
              strip (strip_hyphen v0) \<in> generate_login_candidates_from_email cfg email \<and>
              (derive_suffix_token cfg \<noteq> [] \<longrightarrow>
                 strip (strip_hyphen v0) @ ''_'' @ derive_suffix_token cfg
                   \<in> generate_login_candidates_from_email cfg email))
     \<and> (generate_login_candidates_from_email cfg email \<noteq> {} \<longleftrightarrow>
          (\<exists>v0 \<in> {L, replace_char CHR ''.'' [] L, replace_char CHR ''.'' ''-'' L,
                  replace_char CHR ''_'' ''-'' L, filter (\<lambda>c. is_alnum c \<or> c = CHR ''-'') L,
                  filter is_alnum L}. strip (strip_hyphen v0) \<noteq> []))"
proof -
  have g: "generate_login_candidates_from_email cfg email
      = (\<Union>v0 \<in> set (variants L). set (variant_logins (derive_suffix_token cfg) v0))"
    using assms by (simp add: generate_login_candidates_from_email_def login_candidates_def Let_def)
  have v: "set (variants L) = {L, replace_char CHR ''.'' [] L, replace_char CHR ''.'' ''-'' L,
                  replace_char CHR ''_'' ''-'' L, filter (\<lambda>c. is_alnum c \<or> c = CHR ''-'') L,
                  filter is_alnum L}"
    by (simp add: variants_def)
  have m: "set (variant_logins sfx v0) =
      (if strip (strip_hyphen v0) = [] then {}
       else insert (strip (strip_hyphen v0))
              (if sfx \<noteq> [] then {strip (strip_hyphen v0) @ ''_'' @ sfx} else {}))" for sfx v0
    by (simp add: variant_logins_def Let_def)
  show ?thesis
    unfolding g v[symmetric] by (auto simp: m split: if_splits)
qed

theorem login_candidates_cover_witness:
  "CHR ''@'' \<in> set (lower (strip ''s.chander@co.com'')) \<and>
   strip (before_first CHR ''@'' (lower (strip ''s.chander@co.com''))) = ''s.chander'' \<and>
   derive_suffix_token newgen_cfg = ''newgen'' \<and>
   ''schander_newgen'' \<in> generate_login_candidates_from_email newgen_cfg ''s.chander@co.com'' \<and>
   ''s-chander_newgen'' \<in> generate_login_candidates_from_email newgen_cfg ''s.chander@co.com'' \<and>
   generate_login_candidates_from_email newgen_cfg ''s.chander@co.com'' \<noteq> {}"
proof -
  have h1: "CHR ''@'' \<in> set (lower (strip ''s.chander@co.com''))"
    by (simp add: string_evals)
  have h2: "''s.chander'' = strip (before_first CHR ''@'' (lower (strip ''s.chander@co.com'')))"
    by (simp add: string_evals)
  have h3: "''s.chander'' \<noteq> []" by simp
  have s: "derive_suffix_token newgen_cfg = ''newgen''"
    by (simp add: derive_suffix_token_def LOGIN_SUFFIX_def newgen_cfg_def string_evals)
  have v1: "strip (strip_hyphen (replace_char CHR ''.'' [] ''s.chander'')) = ''schander''"
    by (simp add: string_evals)
  have v2: "strip (strip_hyphen (replace_char CHR ''.'' ''-'' ''s.chander'')) = ''s-chander''"
    by (simp add: string_evals)
  from login_candidates_cover[OF h1 h2 h3, of newgen_cfg] h1 h2 s v1 v2
  show ?thesis by auto
qed

text \<open>
  The claim as stated promises a non-empty set for every non-empty local part; the local
  part \<open>-\<close> yields the empty set.
\<close>

theorem login_candidates_hyphen_counterexample:
  "CHR ''@'' \<in> set ''-@co.com'' \<and> before_first CHR ''@'' (lower ''-@co.com'') = ''-'' \<and>
   generate_login_candidates_from_email newgen_cfg ''-@co.com'' = {}"
  by (simp add: generate_login_candidates_from_email_def login_candidates_def variants_def
      variant_logins_def string_evals)

section \<open>The identity index\<close>

lemma add_keys_lookup:
  "add_keys idx v ks k =
     (case idx k of Some x \<Rightarrow> Some x
      | None \<Rightarrow> if k \<in> set ks \<and> k \<noteq> [] then Some v else None)"
proof (induction ks arbitrary: idx)
  case Nil
  then show ?case by (simp split: option.splits)
next
  case (Cons a ks)
  show ?case
    by (auto simp: Cons.IH setdefault_def split: option.splits)
qed

lemma dict_records_Cons:
  "dict_records (x # us) = (case x of JDict u \<Rightarrow> [u] | _ \<Rightarrow> []) @ dict_records us"
  by (simp add: dict_records_def)

lemma build_scim_index_from_lookup:
  "build_scim_index_from cfg str_of idx users k =
     (case idx k of Some x \<Rightarrow> Some x
      | None \<Rightarrow>
         (case find (\<lambda>u. k \<in> set (scim_keys cfg str_of u)) (dict_records users) of
            None \<Rightarrow> None
          | Some u \<Rightarrow> if k = [] then None else Some (scim_identity str_of u)))"
proof (induction users arbitrary: idx)
  case Nil
  then show ?case by (simp add: dict_records_def split: option.splits)
next
  case (Cons x us)
  show ?case
  proof (cases x)
    case (JDict u)
    then show ?thesis
      by (auto simp: Cons.IH dict_records_Cons add_keys_lookup split: option.splits)
  qed (simp_all add: Cons.IH dict_records_Cons cong: option.case_cong)
qed

text \<open>
  C7. The index maps a non-empty key to the identity fields of the first record, in
  input order, whose keys contain it, and to nothing when no record has the key; an
  entry already present is never replaced by a later record.
\<close>

theorem build_scim_index_first_write_wins:
  "build_scim_index cfg str_of users k =
     (case find (\<lambda>u. k \<in> set (scim_keys cfg str_of u)) (dict_records users) of
        None \<Rightarrow> None
      | Some u \<Rightarrow> if k = [] then None else Some (scim_identity str_of u))
   \<and> (\<forall>idx v. idx k = Some v \<longrightarrow> build_scim_index_from cfg str_of idx users k = Some v)"
  by (simp add: build_scim_index_def build_scim_index_from_lookup)

theorem build_scim_index_first_write_wins_witness:
  "build_scim_index newgen_cfg (\<lambda>v. []) two_amys ''amy''
     = Some \<lparr>id_name = ''Amy A'', id_email = ''amy@co.com'', id_scim_userName = ''amy@co.com''\<rparr> \<and>
   build_scim_index_from newgen_cfg (\<lambda>v. [])
       [''amy'' \<mapsto> \<lparr>id_name = ''Zed'', id_email = [], id_scim_userName = []\<rparr>] two_amys ''amy''
     = Some \<lparr>id_name = ''Zed'', id_email = [], id_scim_userName = []\<rparr>"
proof -
  have k: "''amy'' \<in> set (scim_keys newgen_cfg (\<lambda>v. [])
              [(''userName'', JStr ''amy@co.com''), (''displayName'', JStr ''Amy A'')])"
    by (simp add: scim_keys_def pick_scim_email_def user_name_of_def py_str_def py_or_def
        dict_get_def string_evals Let_def)
  have i: "scim_identity (\<lambda>v. []) [(''userName'', JStr ''amy@co.com''), (''displayName'', JStr ''Amy A'')]
      = \<lparr>id_name = ''Amy A'', id_email = ''amy@co.com'', id_scim_userName = ''amy@co.com''\<rparr>"
    by (simp add: scim_identity_def pick_scim_name_def pick_scim_email_def user_name_of_def
        py_str_def py_or_def dict_get_def string_evals)
  from build_scim_index_first_write_wins[of newgen_cfg "\<lambda>v. []" two_amys "''amy''"] k i
  show ?thesis
    by (simp add: two_amys_def dict_records_def)
qed

section \<open>Activity classification\<close>

lemma is_active_nonstring:
  "(\<forall>s. v \<noteq> JStr s) \<or> v = JStr [] \<Longrightarrow> is_active fromisoformat now v = ''inactive''"
  by (cases v) (simp_all add: is_active_def)

lemma is_active_string:
  "s \<noteq> [] \<Longrightarrow> is_active fromisoformat now (JStr s) =
     (case fromisoformat (replace_char CHR ''Z'' ''+00:00'' s) of
        None \<Rightarrow> ''inactive''
      | Some (t, tz) \<Rightarrow> if now tz - t \<le> thirty_days then ''active'' else ''inactive'')"
  by (simp add: is_active_def)

lemma is_active_two_values:
  "is_active fromisoformat now v = ''active'' \<or> is_active fromisoformat now v = ''inactive''"
proof (cases "\<exists>s. v = JStr s \<and> s \<noteq> []")
  case True
  then obtain s where s: "v = JStr s" "s \<noteq> []" by blast
  show ?thesis
  proof (cases "fromisoformat (replace_char CHR ''Z'' ''+00:00'' s)")
    case None
    with s show ?thesis by (simp add: is_active_string)
  next
    case (Some p)
    obtain t tz where "p = (t, tz)" by (cases p)
    with Some s show ?thesis by (simp add: is_active_string)
  qed
next
  case False
  then have "(\<forall>s. v \<noteq> JStr s) \<or> v = JStr []" by blast
  then show ?thesis by (simp add: is_active_nonstring)
qed

lemma is_active_iff:
  "is_active fromisoformat now v = ''active'' \<longleftrightarrow>
      (\<exists>s t tz. v = JStr s \<and> s \<noteq> [] \<and>
         fromisoformat (replace_char CHR ''Z'' ''+00:00'' s) = Some (t, tz) \<and>
         now tz - t \<le> thirty_days)"
proof (cases "\<exists>s. v = JStr s \<and> s \<noteq> []")
  case True
  then obtain s where s: "v = JStr s" "s \<noteq> []" by blast
  show ?thesis
  proof (cases "fromisoformat (replace_char CHR ''Z'' ''+00:00'' s)")
    case None
    with s show ?thesis by (simp add: is_active_string)
  next
    case (Some p)
    obtain t tz where "p = (t, tz)" by (cases p)
    with Some s show ?thesis by (simp add: is_active_string)
  qed
next
  case False
  then have n: "(\<forall>s. v \<noteq> JStr s) \<or> v = JStr []" by blast
  from False have "\<not> (\<exists>s t tz. v = JStr s \<and> s \<noteq> [] \<and>
         fromisoformat (replace_char CHR ''Z'' ''+00:00'' s) = Some (t, tz) \<and>
         now tz - t \<le> thirty_days)" by blast
  with is_active_nonstring[OF n, of fromisoformat now] show ?thesis by simp
qed

text \<open>
  C8. The classification is "active" exactly when the timestamp is a non-empty string
  that parses and lies no more than 30 days before the evaluation time, and "inactive"
  in every other case; the function never raises. Exactly 30 days gives "active",
  31 days "inactive", and a missing, empty or unparseable timestamp "inactive".
\<close>

theorem is_active_classification:
  "(is_active fromisoformat now v = ''active'' \<longleftrightarrow>
      (\<exists>s t tz. v = JStr s \<and> s \<noteq> [] \<and>
         fromisoformat (replace_char CHR ''Z'' ''+00:00'' s) = Some (t, tz) \<and>
         now tz - t \<le> 30 * 86400 * 1000000))
   \<and> (is_active fromisoformat now v \<noteq> ''active'' \<longrightarrow> is_active fromisoformat now v = ''inactive'')
   \<and> (\<forall>s t tz. v = JStr s \<and> s \<noteq> [] \<and>
         fromisoformat (replace_char CHR ''Z'' ''+00:00'' s) = Some (t, tz) \<longrightarrow>
         (now tz - t = 30 * 86400 * 1000000 \<longrightarrow> is_active fromisoformat now v = ''active'') \<and>
         (now tz - t = 31 * 86400 * 1000000 \<longrightarrow> is_active fromisoformat now v = ''inactive''))
   \<and> (v = JNull \<or> v = JStr [] \<or>
        (\<exists>s. v = JStr s \<and> fromisoformat (replace_char CHR ''Z'' ''+00:00'' s) = None)
        \<longrightarrow> is_active fromisoformat now v = ''inactive'')"
proof (intro conjI)
  show "is_active fromisoformat now v = ''active'' \<longleftrightarrow>
      (\<exists>s t tz. v = JStr s \<and> s \<noteq> [] \<and>
         fromisoformat (replace_char CHR ''Z'' ''+00:00'' s) = Some (t, tz) \<and>
         now tz - t \<le> 30 * 86400 * 1000000)"
    using is_active_iff[of fromisoformat now v] by (simp only: thirty_days_def)
  show "is_active fromisoformat now v \<noteq> ''active'' \<longrightarrow> is_active fromisoformat now v = ''inactive''"
    using is_active_two_values[of fromisoformat now v] by blast
  show "\<forall>s t tz. v = JStr s \<and> s \<noteq> [] \<and>
         fromisoformat (replace_char CHR ''Z'' ''+00:00'' s) = Some (t, tz) \<longrightarrow>
         (now tz - t = 30 * 86400 * 1000000 \<longrightarrow> is_active fromisoformat now v = ''active'') \<and>
         (now tz - t = 31 * 86400 * 1000000 \<longrightarrow> is_active fromisoformat now v = ''inactive'')"
    by (simp add: is_active_string thirty_days_def)
  show "v = JNull \<or> v = JStr [] \<or>
        (\<exists>s. v = JStr s \<and> fromisoformat (replace_char CHR ''Z'' ''+00:00'' s) = None)
        \<longrightarrow> is_active fromisoformat now v = ''inactive''"
  proof
    assume "v = JNull \<or> v = JStr [] \<or>
        (\<exists>s. v = JStr s \<and> fromisoformat (replace_char CHR ''Z'' ''+00:00'' s) = None)"
    then consider "v = JNull" | "v = JStr []"
      | s where "v = JStr s" "s \<noteq> []" "fromisoformat (replace_char CHR ''Z'' ''+00:00'' s) = None"
      by blast
    then show "is_active fromisoformat now v = ''inactive''"
    proof cases
      case 1 then show ?thesis by (simp add: is_active_nonstring)
    next
      case 2 then show ?thesis by (simp add: is_active_nonstring)
    next
      case 3 then show ?thesis by (simp add: is_active_string)
    qed
  qed
qed

theorem is_active_classification_witness:
  "is_active one_stamp (\<lambda>tz. 30 * 86400 * 1000000) (JStr ''2024-05-01T00:00:00Z'') = ''active'' \<and>
   is_active one_stamp (\<lambda>tz. 31 * 86400 * 1000000) (JStr ''2024-05-01T00:00:00Z'') = ''inactive'' \<and>
   is_active one_stamp (\<lambda>tz. 0) JNull = ''inactive'' \<and>
   is_active one_stamp (\<lambda>tz. 0) (JStr ''yesterday'') = ''inactive''"
proof -
  have p: "one_stamp (replace_char CHR ''Z'' ''+00:00'' ''2024-05-01T00:00:00Z'') = Some (0, ())"
    by (simp add: one_stamp_def replace_char_def)
  have q: "one_stamp (replace_char CHR ''Z'' ''+00:00'' ''yesterday'') = None"
    by (simp add: one_stamp_def replace_char_def)
  note days = is_active_classification[THEN conjunct2, THEN conjunct2, THEN conjunct1, rule_format]
  note none = is_active_classification[THEN conjunct2, THEN conjunct2, THEN conjunct2, rule_format]
  have a: "is_active one_stamp (\<lambda>tz. 30 * 86400 * 1000000) (JStr ''2024-05-01T00:00:00Z'') = ''active''"
    using days[of "JStr ''2024-05-01T00:00:00Z''" "''2024-05-01T00:00:00Z''" one_stamp 0 "()"
        "\<lambda>tz. 30 * 86400 * 1000000"] p
    by simp
  have b: "is_active one_stamp (\<lambda>tz. 31 * 86400 * 1000000) (JStr ''2024-05-01T00:00:00Z'') = ''inactive''"
    using days[of "JStr ''2024-05-01T00:00:00Z''" "''2024-05-01T00:00:00Z''" one_stamp 0 "()"
        "\<lambda>tz. 31 * 86400 * 1000000"] p
    by simp
  have c: "is_active one_stamp (\<lambda>tz. 0) JNull = ''inactive''"
    using none[of JNull one_stamp "\<lambda>tz. 0"] by simp
  have d: "is_active one_stamp (\<lambda>tz. 0) (JStr ''yesterday'') = ''inactive''"
    using none[of "JStr ''yesterday''" one_stamp "\<lambda>tz. 0"] q by simp
  from a b c d show ?thesis by (simp only: simp_thms)
qed

section \<open>The report join\<close>

lemma membership_rows_map:
  "membership_rows cfg fromisoformat now scim_index by_login team_name team_slug rows ms =
     rows @ map (\<lambda>m. report_row_for cfg fromisoformat now scim_index by_login team_name team_slug
                        (parse_membership_login m))
              (filter (\<lambda>m. parse_membership_login m \<noteq> []) ms)"
  by (induction ms arbitrary: rows) (simp_all add: Let_def)

lemma seats_by_login_keys:
  "seats_by_login m0 seats = Inr m \<Longrightarrow> (\<forall>l s. m0 l = Some s \<longrightarrow> seat_login s = Inr l \<and> l \<noteq> []) \<Longrightarrow>
   m l = Some s \<Longrightarrow> seat_login s = Inr l \<and> l \<noteq> []"
proof (induction m0 seats rule: seats_by_login.induct)
  case (1 by_login)
  then show ?case by simp
next
  case (2 by_login s0 ss)
  from "2.prems"(1) obtain login where lg: "seat_login s0 = Inr login"
    and rec: "seats_by_login (if login \<noteq> [] then by_login(login \<mapsto> s0) else by_login) ss = Inr m"
    by (auto split: sum.splits)
  have inv: "\<forall>l s. (if login \<noteq> [] then by_login(login \<mapsto> s0) else by_login) l = Some s
       \<longrightarrow> seat_login s = Inr l \<and> l \<noteq> []"
    using "2.prems"(2) lg by auto
  from "2.IH"[OF lg rec inv "2.prems"(3)] show ?case .
qed simp_all

lemmas get_evals = gh_get_def http_get_def sleep_def retry_status_def retry_wait_def
  plain_response_def w0_def

lemma team_rows_step:
  assumes "team_name_of t = Inr tn" "team_slug_of t = Inr sl" "sl \<noteq> []"
    "fetch_enterprise_team_memberships cfg srv sl w = Some (Inr ms, w1)"
  shows "team_rows cfg fromisoformat now srv scim_index by_login rows (JDict t # ts) w =
         team_rows cfg fromisoformat now srv scim_index by_login
           (membership_rows cfg fromisoformat now scim_index by_login tn sl rows ms) ts w1"
  using assms by simp

lemma team_rows_skip:
  assumes "team_name_of t = Inr tn" "team_slug_of t = Inr []"
  shows "team_rows cfg fromisoformat now srv scim_index by_login rows (JDict t # ts) w =
         team_rows cfg fromisoformat now srv scim_index by_login rows ts w"
  using assms by simp

lemma row_identity_blank:
  "scim_index (strip (lower login)) = None \<Longrightarrow>
   r_name (report_row_for cfg fromisoformat now scim_index by_login tn sl login) = [] \<and>
   r_email (report_row_for cfg fromisoformat now scim_index by_login tn sl login) = [] \<and>
   r_scim_userName (report_row_for cfg fromisoformat now scim_index by_login tn sl login) = []"
  by (simp add: report_row_for_def Let_def)

lemma row_seat_blank:
  "by_login login = None \<Longrightarrow>
   r_copilot_assigned (report_row_for cfg fromisoformat now scim_index by_login tn sl login) = ''no'' \<and>
   r_copilot_status (report_row_for cfg fromisoformat now scim_index by_login tn sl login) = JStr [] \<and>
   r_plan_type (report_row_for cfg fromisoformat now scim_index by_login tn sl login) = JStr [] \<and>
   r_last_activity_at (report_row_for cfg fromisoformat now scim_index by_login tn sl login) = JStr [] \<and>
   r_active_status (report_row_for cfg fromisoformat now scim_index by_login tn sl login) = ''inactive'' \<and>
   r_seat_created_at (report_row_for cfg fromisoformat now scim_index by_login tn sl login) = JStr [] \<and>
   r_seat_updated_at (report_row_for cfg fromisoformat now scim_index by_login tn sl login) = JStr []"
  by (simp add: report_row_for_def seat_present_def seat_field_def Let_def)

lemma row_keys:
  "r_login (report_row_for cfg fromisoformat now scim_index by_login tn sl login) = login \<and>
   r_team_name (report_row_for cfg fromisoformat now scim_index by_login tn sl login) = tn \<and>
   r_team_slug (report_row_for cfg fromisoformat now scim_index by_login tn sl login) = sl"
  by (simp add: report_row_for_def Let_def)

text \<open>
  C3, as the code has it. The rows appended for a team are one row for each of its
  membership records from which a login can be extracted, in order, and none for the
  others; a team with an empty slug contributes no rows, and a team with a slug
  contributes the rows of the memberships fetched for it. In the row of a login the
  identity lookup does not find, name, email and scim_userName are blank; in the row of a
  login the seat lookup does not find, the assigned column is "no", the activity status
  is "inactive" and the other seat columns are blank.
\<close>

theorem one_row_per_login_membership:
  "membership_rows cfg fromisoformat now scim_index by_login tn sl rows ms =
     rows @ map (\<lambda>m. report_row_for cfg fromisoformat now scim_index by_login tn sl
                        (parse_membership_login m))
              (filter (\<lambda>m. parse_membership_login m \<noteq> []) ms)
   \<and> (team_name_of t = Inr tn \<and> team_slug_of t = Inr sl \<and> sl \<noteq> [] \<and>
       fetch_enterprise_team_memberships cfg srv sl w = Some (Inr ms, w1) \<longrightarrow>
         team_rows cfg fromisoformat now srv scim_index by_login rows (JDict t # ts) w =
         team_rows cfg fromisoformat now srv scim_index by_login
           (rows @ map (\<lambda>m. report_row_for cfg fromisoformat now scim_index by_login tn sl
                               (parse_membership_login m))
                     (filter (\<lambda>m. parse_membership_login m \<noteq> []) ms)) ts w1)
   \<and> (team_name_of t = Inr tn \<and> team_slug_of t = Inr [] \<longrightarrow>
         team_rows cfg fromisoformat now srv scim_index by_login rows (JDict t # ts) w =
         team_rows cfg fromisoformat now srv scim_index by_login rows ts w)
   \<and> (let row = report_row_for cfg fromisoformat now scim_index by_login tn sl login in
        r_login row = login \<and> r_team_name row = tn \<and> r_team_slug row = sl \<and>
        (scim_index (strip (lower login)) = None \<longrightarrow>
           r_name row = [] \<and> r_email row = [] \<and> r_scim_userName row = []) \<and>
        (by_login login = None \<longrightarrow>
           r_copilot_assigned row = ''no'' \<and> r_copilot_status row = JStr [] \<and>
           r_plan_type row = JStr [] \<and> r_last_activity_at row = JStr [] \<and>
           r_active_status row = ''inactive'' \<and> r_seat_created_at row = JStr [] \<and>
           r_seat_updated_at row = JStr []))"
proof (intro conjI impI)
  show "membership_rows cfg fromisoformat now scim_index by_login tn sl rows ms =
     rows @ map (\<lambda>m. report_row_for cfg fromisoformat now scim_index by_login tn sl
                        (parse_membership_login m))
              (filter (\<lambda>m. parse_membership_login m \<noteq> []) ms)"
    by (rule membership_rows_map)
next
  assume a: "team_name_of t = Inr tn \<and> team_slug_of t = Inr sl \<and> sl \<noteq> [] \<and>
       fetch_enterprise_team_memberships cfg srv sl w = Some (Inr ms, w1)"
  then show "team_rows cfg fromisoformat now srv scim_index by_login rows (JDict t # ts) w =
         team_rows cfg fromisoformat now srv scim_index by_login
           (rows @ map (\<lambda>m. report_row_for cfg fromisoformat now scim_index by_login tn sl
                               (parse_membership_login m))
                     (filter (\<lambda>m. parse_membership_login m \<noteq> []) ms)) ts w1"
    using team_rows_step[of t tn sl cfg srv w ms w1 fromisoformat now scim_index by_login rows ts]
    by (simp add: membership_rows_map)
next
  assume "team_name_of t = Inr tn \<and> team_slug_of t = Inr []"
  then show "team_rows cfg fromisoformat now srv scim_index by_login rows (JDict t # ts) w =
         team_rows cfg fromisoformat now srv scim_index by_login rows ts w"
    using team_rows_skip[of t tn cfg fromisoformat now srv scim_index by_login rows ts w] by blast
next
  show "let row = report_row_for cfg fromisoformat now scim_index by_login tn sl login in
        r_login row = login \<and> r_team_name row = tn \<and> r_team_slug row = sl \<and>
        (scim_index (strip (lower login)) = None \<longrightarrow>
           r_name row = [] \<and> r_email row = [] \<and> r_scim_userName row = []) \<and>
        (by_login login = None \<longrightarrow>
           r_copilot_assigned row = ''no'' \<and> r_copilot_status row = JStr [] \<and>
           r_plan_type row = JStr [] \<and> r_last_activity_at row = JStr [] \<and>
           r_active_status row = ''inactive'' \<and> r_seat_created_at row = JStr [] \<and>
           r_seat_updated_at row = JStr [])"
    unfolding Let_def
    using row_identity_blank[of scim_index login cfg fromisoformat now by_login tn sl]
      row_seat_blank[of by_login login cfg fromisoformat now scim_index tn sl]
      row_keys[of cfg fromisoformat now scim_index by_login tn sl login]
    by blast
qed

lemma parse_ghost: "parse_membership_login ghost_membership = ''ghost''"
  by (simp add: parse_membership_login_def ghost_membership_def strip_def strip_chars_def is_space_def)

lemma parse_blank: "parse_membership_login blank_membership = []"
  by (simp add: parse_membership_login_def blank_membership_def)

lemma fetch_core_memberships:
  "fetch_enterprise_team_memberships newgen_cfg memberships_server ''core'' w0
     = Some (Inr [ghost_membership, blank_membership], \<lparr>calls = 1, slept = []\<rparr>)"
  unfolding fetch_enterprise_team_memberships_def fetch_rest_list_paged_def
  by (subst fetch_rest_list_paged_loop.simps)
     (simp add: rest_page_def get_evals memberships_server_def raise_for_status_def resp_json_def
        normalize_list_payload_def)

theorem one_row_per_login_membership_witness:
  "fetch_enterprise_team_memberships newgen_cfg memberships_server ''core'' w0
     = Some (Inr [ghost_membership, blank_membership], \<lparr>calls = 1, slept = []\<rparr>) \<and>
   team_rows newgen_cfg one_stamp (\<lambda>tz. 0) memberships_server Map.empty Map.empty []
       [JDict core_team, JDict [(''name'', JStr ''No slug'')]] w0
     = Some (Inr [\<lparr>r_enterprise = ''Newgen-EMU'', r_team_name = ''Core'', r_team_slug = ''core'',
                    r_login = ''ghost'', r_name = [], r_email = [], r_scim_userName = [],
                    r_copilot_assigned = ''no'', r_copilot_status = JStr [], r_plan_type = JStr [],
                    r_last_activity_at = JStr [], r_active_status = ''inactive'',
                    r_seat_created_at = JStr [], r_seat_updated_at = JStr []\<rparr>],
             \<lparr>calls = 1, slept = []\<rparr>)"
proof -
  have n: "team_name_of core_team = Inr ''Core''" "team_slug_of core_team = Inr ''core''"
    by (simp_all add: team_name_of_def team_slug_of_def core_team_def stripped_field_def py_or_def
        dict_get_def strip_def strip_chars_def is_space_def)
  have n2: "team_name_of [(''name'', JStr ''No slug'')] = Inr ''No slug''"
    "team_slug_of [(''name'', JStr ''No slug'')] = Inr []"
    by (simp_all add: team_name_of_def team_slug_of_def stripped_field_def py_or_def
        dict_get_def strip_def strip_chars_def is_space_def)
  have l: "strip (lower ''ghost'') = ''ghost''"
    by (simp add: lower_def lower_char_def strip_def strip_chars_def is_space_def)
  note T = one_row_per_login_membership[of newgen_cfg one_stamp "\<lambda>tz. 0" Map.empty Map.empty
      "''Core''" "''core''" "[]" "[ghost_membership, blank_membership]" core_team
      memberships_server w0 "\<lparr>calls = 1, slept = []\<rparr>"
      "[JDict [(''name'', JStr ''No slug'')]]" "''ghost''"]
  note U = one_row_per_login_membership[of newgen_cfg one_stamp "\<lambda>tz. 0" Map.empty Map.empty
      "''No slug''" "[]" "[report_row_for newgen_cfg one_stamp (\<lambda>tz. 0) Map.empty Map.empty
          ''Core'' ''core'' ''ghost'']" "[]" "[(''name'', JStr ''No slug'')]"
      memberships_server "\<lparr>calls = 1, slept = []\<rparr>" w0 "[]" "''ghost''"]
  have step1: "team_rows newgen_cfg one_stamp (\<lambda>tz. 0) memberships_server Map.empty Map.empty []
       [JDict core_team, JDict [(''name'', JStr ''No slug'')]] w0
     = team_rows newgen_cfg one_stamp (\<lambda>tz. 0) memberships_server Map.empty Map.empty
         [report_row_for newgen_cfg one_stamp (\<lambda>tz. 0) Map.empty Map.empty ''Core'' ''core'' ''ghost'']
         [JDict [(''name'', JStr ''No slug'')]] \<lparr>calls = 1, slept = []\<rparr>"
    using T n fetch_core_memberships by (simp add: parse_ghost parse_blank)
  have step2: "team_rows newgen_cfg one_stamp (\<lambda>tz. 0) memberships_server Map.empty Map.empty
         [report_row_for newgen_cfg one_stamp (\<lambda>tz. 0) Map.empty Map.empty ''Core'' ''core'' ''ghost'']
         [JDict [(''name'', JStr ''No slug'')]] \<lparr>calls = 1, slept = []\<rparr>
     = Some (Inr [report_row_for newgen_cfg one_stamp (\<lambda>tz. 0) Map.empty Map.empty
                    ''Core'' ''core'' ''ghost''], \<lparr>calls = 1, slept = []\<rparr>)"
    using U n2 by simp
  have row: "report_row_for newgen_cfg one_stamp (\<lambda>tz. 0) Map.empty Map.empty ''Core'' ''core'' ''ghost''
     = \<lparr>r_enterprise = ''Newgen-EMU'', r_team_name = ''Core'', r_team_slug = ''core'',
                    r_login = ''ghost'', r_name = [], r_email = [], r_scim_userName = [],
                    r_copilot_assigned = ''no'', r_copilot_status = JStr [], r_plan_type = JStr [],
                    r_last_activity_at = JStr [], r_active_status = ''inactive'',
                    r_seat_created_at = JStr [], r_seat_updated_at = JStr []\<rparr>"
    by (simp add: report_row_for_def Let_def seat_present_def seat_field_def newgen_cfg_def)
  from step1 step2 row fetch_core_memberships show ?thesis by simp
qed

text \<open>
  The claim as stated promises a row for every membership record; a record without a
  login yields none.
\<close>

theorem membership_without_login_counterexample:
  "parse_membership_login blank_membership = [] \<and>
   membership_rows newgen_cfg one_stamp (\<lambda>tz. 0) Map.empty Map.empty ''Core'' ''core'' []
     [blank_membership] = []"
  by (simp add: parse_blank)

lemma report_row_identity_key:
  "strip (lower l1) = strip (lower l2) \<Longrightarrow>
   r_name (report_row_for cfg fromisoformat now scim_index by_login tn sl l1)
     = r_name (report_row_for cfg fromisoformat now scim_index by_login tn sl l2) \<and>
   r_email (report_row_for cfg fromisoformat now scim_index by_login tn sl l1)
     = r_email (report_row_for cfg fromisoformat now scim_index by_login tn sl l2) \<and>
   r_scim_userName (report_row_for cfg fromisoformat now scim_index by_login tn sl l1)
     = r_scim_userName (report_row_for cfg fromisoformat now scim_index by_login tn sl l2)"
  by (simp add: report_row_for_def Let_def)

lemma report_row_assigned:
  "r_copilot_assigned (report_row_for cfg fromisoformat now scim_index by_login tn sl l) = ''yes''
     \<longleftrightarrow> (\<exists>s. by_login l = Some s \<and> s \<noteq> [])"
  by (cases "by_login l") (simp_all add: report_row_for_def Let_def seat_present_def)

text \<open>
  C4, as the code has it. The identity index is looked up under the lowercased, trimmed
  login, so two logins that differ only in letter case get the same identity fields. The
  seat mapping is looked up under the login exactly as extracted: the assigned column is
  "yes" exactly when the mapping has a seat under that very string, and the mapping's
  keys are the trimmed assignee logins of the seats, letter case kept.
\<close>

theorem identity_lookup_folds_case_seat_lookup_exact:
  "(strip (lower l1) = strip (lower l2) \<longrightarrow>
      r_name (report_row_for cfg fromisoformat now scim_index by_login tn sl l1)
        = r_name (report_row_for cfg fromisoformat now scim_index by_login tn sl l2) \<and>
      r_email (report_row_for cfg fromisoformat now scim_index by_login tn sl l1)
        = r_email (report_row_for cfg fromisoformat now scim_index by_login tn sl l2) \<and>
      r_scim_userName (report_row_for cfg fromisoformat now scim_index by_login tn sl l1)
        = r_scim_userName (report_row_for cfg fromisoformat now scim_index by_login tn sl l2))
   \<and> (r_copilot_assigned (report_row_for cfg fromisoformat now scim_index by_login tn sl l) = ''yes''
        \<longleftrightarrow> (\<exists>s. by_login l = Some s \<and> s \<noteq> []))
   \<and> (seats_by_login Map.empty seats = Inr m \<and> m l = Some s \<longrightarrow> seat_login s = Inr l \<and> l \<noteq> [])"
proof -
  have a: "strip (lower l1) = strip (lower l2) \<longrightarrow>
      r_name (report_row_for cfg fromisoformat now scim_index by_login tn sl l1)
        = r_name (report_row_for cfg fromisoformat now scim_index by_login tn sl l2) \<and>
      r_email (report_row_for cfg fromisoformat now scim_index by_login tn sl l1)
        = r_email (report_row_for cfg fromisoformat now scim_index by_login tn sl l2) \<and>
      r_scim_userName (report_row_for cfg fromisoformat now scim_index by_login tn sl l1)
        = r_scim_userName (report_row_for cfg fromisoformat now scim_index by_login tn sl l2)"
    by (rule impI) (rule report_row_identity_key)
  have b: "r_copilot_assigned (report_row_for cfg fromisoformat now scim_index by_login tn sl l) = ''yes''
        \<longleftrightarrow> (\<exists>s. by_login l = Some s \<and> s \<noteq> [])"
    by (rule report_row_assigned)
  have c: "seats_by_login Map.empty seats = Inr m \<and> m l = Some s \<longrightarrow> seat_login s = Inr l \<and> l \<noteq> []"
    using seats_by_login_keys[of Map.empty seats m l s] by simp
  show ?thesis by (rule conjI[OF a conjI[OF b c]])
qed

lemma alice_by_login: "seats_by_login Map.empty [JDict alice_seat] = Inr [''Alice'' \<mapsto> alice_seat]"
  by (simp add: seat_login_def alice_seat_def py_or_def dict_get_def strip_def strip_chars_def
      is_space_def)

theorem identity_lookup_folds_case_seat_lookup_exact_witness:
  "strip (lower ''AMY'') = strip (lower ''amy'') \<and>
   r_name (report_row_for newgen_cfg one_stamp (\<lambda>tz. 0) [''amy'' \<mapsto> amy_identity]
             [''Alice'' \<mapsto> alice_seat] ''Core'' ''core'' ''AMY'') = ''Amy A'' \<and>
   r_name (report_row_for newgen_cfg one_stamp (\<lambda>tz. 0) [''amy'' \<mapsto> amy_identity]
             [''Alice'' \<mapsto> alice_seat] ''Core'' ''core'' ''amy'') = ''Amy A'' \<and>
   r_copilot_assigned (report_row_for newgen_cfg one_stamp (\<lambda>tz. 0) [''amy'' \<mapsto> amy_identity]
             [''Alice'' \<mapsto> alice_seat] ''Core'' ''core'' ''Alice'') = ''yes'' \<and>
   seats_by_login Map.empty [JDict alice_seat] = Inr [''Alice'' \<mapsto> alice_seat] \<and>
   seat_login alice_seat = Inr ''Alice''"
proof -
  have c: "strip (lower ''AMY'') = strip (lower ''amy'')" "strip (lower ''amy'') = ''amy''"
    by (simp_all add: lower_def lower_char_def strip_def strip_chars_def is_space_def)
  have r: "r_name (report_row_for newgen_cfg one_stamp (\<lambda>tz. 0) [''amy'' \<mapsto> amy_identity]
             [''Alice'' \<mapsto> alice_seat] ''Core'' ''core'' ''amy'') = ''Amy A''"
    by (simp add: report_row_for_def Let_def c amy_identity_def)
  have ne: "alice_seat \<noteq> []" by (simp add: alice_seat_def)
  note T = identity_lookup_folds_case_seat_lookup_exact[of "''AMY''" "''amy''" newgen_cfg one_stamp
      "\<lambda>tz. 0" "[''amy'' \<mapsto> amy_identity]" "[''Alice'' \<mapsto> alice_seat]" "''Core''" "''core''"
      "''Alice''" "[JDict alice_seat]" "[''Alice'' \<mapsto> alice_seat]" alice_seat]
  from T c r ne alice_by_login show ?thesis by simp
qed

text \<open>
  The claim as stated promises that a seat keyed under a login is found for a membership
  login equal to it up to case; the seat of \<open>Alice\<close> is not found for \<open>alice\<close>.
\<close>

theorem seat_lookup_case_counterexample:
  "lower ''alice'' = lower ''Alice'' \<and>
   seats_by_login Map.empty [JDict alice_seat] = Inr [''Alice'' \<mapsto> alice_seat] \<and>
   r_copilot_assigned (report_row_for newgen_cfg one_stamp (\<lambda>tz. 0) Map.empty
       [''Alice'' \<mapsto> alice_seat] ''Core'' ''core'' ''alice'') = ''no'' \<and>
   r_copilot_assigned (report_row_for newgen_cfg one_stamp (\<lambda>tz. 0) Map.empty
       [''Alice'' \<mapsto> alice_seat] ''Core'' ''core'' ''Alice'') = ''yes''"
proof -
  have "lower ''alice'' = lower ''Alice''"
    by (simp add: lower_def lower_char_def)
  moreover have "alice_seat \<noteq> []" by (simp add: alice_seat_def)
  ultimately show ?thesis
    using alice_by_login by (simp add: report_row_for_def Let_def seat_present_def)
qed

section \<open>Flattening\<close>



lemma raised_not_None: "raised e \<noteq> (rs, None)"
  by (simp add: raised_def)


























section \<open>Access errors while paging\<close>









section \<open>Collecting the directory\<close>

lemma scim_page_calls:
  assumes "scim_page int_of_str srv url si users w = (r, w1)"
  shows "calls w1 \<le> calls w + 6"
proof -
  obtain g wg where g: "gh_get srv url [''startIndex'' \<mapsto> si, ''count'' \<mapsto> 100] w = (g, wg)"
    by (cases "gh_get srv url [''startIndex'' \<mapsto> si, ''count'' \<mapsto> 100] w")
  from gh_get_spec[OF g] have c: "calls wg \<le> calls w + 6" by auto
  from assms g have "w1 = wg"
    by (auto simp: scim_page_def split: option.splits sum.splits if_splits)
  with c show ?thesis by simp
qed

lemma scim_page_again:
  assumes "scim_page int_of_str srv url si users w = (Inr (True, si1, users1), w1)"
  shows "\<exists>n rs t p. calls w \<le> n \<and> n < calls w1 \<and>
           scim_read_page int_of_str (srv n url [''startIndex'' \<mapsto> si, ''count'' \<mapsto> 100]) url
             = Inr (rs, t, p) \<and>
           0 < p \<and> si1 = si + p \<and> si1 \<le> t \<and> users1 = users @ rs"
proof -
  let ?ps = "[''startIndex'' \<mapsto> si, ''count'' \<mapsto> 100]"
  obtain g wg where g: "gh_get srv url ?ps w = (g, wg)"
    by (cases "gh_get srv url ?ps w")
  from gh_get_spec[OF g] obtain k where k: "g = Some (srv (calls w + k) url ?ps)"
    "calls wg = calls w + k + 1" by blast
  from assms g k(1) obtain x where
    x: "scim_read_page int_of_str (srv (calls w + k) url ?ps) url = Inr x"
    by (cases "scim_read_page int_of_str (srv (calls w + k) url ?ps) url")
       (auto simp: scim_page_def)
  obtain rs t p where xp: "x = (rs, t, p)" by (cases x)
  note rd = x[unfolded xp]
  from assms g k(1) rd have "0 < p" "si1 = si + p" "si1 \<le> t" "users1 = users @ rs" "w1 = wg"
    by (auto simp: scim_page_def split: if_splits)
  with rd k(2) show ?thesis
    by (intro exI[of _ "calls w + k"] exI[of _ rs] exI[of _ t] exI[of _ p]) simp
qed

lemma scim_loop_step:
  assumes "scim_page int_of_str srv url si users w = (r, w1)"
  shows "fetch_all_scim_users_loop int_of_str srv url si users w =
           (case r of
              Inl e \<Rightarrow> Some (Inl e, w1)
            | Inr (again, si1, users1) \<Rightarrow>
                if again then fetch_all_scim_users_loop int_of_str srv url si1 users1 w1
                else Some (Inr users1, w1))"
  by (subst fetch_all_scim_users_loop.simps) (simp add: assms)

lemma scim_loop_terminates:
  assumes bound: "\<And>n ps rs t p. scim_read_page int_of_str (srv n url ps) url = Inr (rs, t, p) \<Longrightarrow> t \<le> N"
  shows "\<exists>r w1. fetch_all_scim_users_loop int_of_str srv url si users w = Some (r, w1) \<and>
                 calls w1 \<le> calls w + 6 * (nat (N - si) + 1)"
proof (induction "nat (N - si)" arbitrary: si users w rule: less_induct)
  case less
  obtain r w1 where p: "scim_page int_of_str srv url si users w = (r, w1)"
    by (cases "scim_page int_of_str srv url si users w")
  have c: "calls w1 \<le> calls w + 6" by (rule scim_page_calls[OF p])
  note step = scim_loop_step[OF p]
  show ?case
  proof (cases r)
    case (Inl e)
    with step c show ?thesis by simp
  next
    case (Inr x)
    obtain again si1 users1 where x: "x = (again, si1, users1)" by (cases x)
    show ?thesis
    proof (cases again)
      case False
      with step Inr x c show ?thesis by simp
    next
      case True
      with p Inr x have "scim_page int_of_str srv url si users w = (Inr (True, si1, users1), w1)"
        by simp
      from scim_page_again[OF this] obtain n rs t q where
        rd: "scim_read_page int_of_str (srv n url [''startIndex'' \<mapsto> si, ''count'' \<mapsto> 100]) url
               = Inr (rs, t, q)"
        and q: "0 < q" "si1 = si + q" "si1 \<le> t" by blast
      from bound[OF rd] q have lt: "si < si1" "si1 \<le> N" by simp_all
      then have m: "nat (N - si1) < nat (N - si)" by simp
      from less[OF m, of users1 w1] obtain r2 w2 where
        r2: "fetch_all_scim_users_loop int_of_str srv url si1 users1 w1 = Some (r2, w2)"
        "calls w2 \<le> calls w1 + 6 * (nat (N - si1) + 1)" by blast
      have ar: "6 * (a + 1) + 6 \<le> 6 * (b + 1)" if "a < b" for a b :: nat
        using that by simp
      from ar[OF m] have "6 * (nat (N - si1) + 1) + 6 \<le> 6 * (nat (N - si) + 1)" .
      with r2(2) c have "calls w2 \<le> calls w + 6 * (nat (N - si) + 1)" by linarith
      with step Inr x True r2(1) show ?thesis by simp
    qed
  qed
qed

lemma scim_loop_decision:
  assumes "gh_get srv url [''startIndex'' \<mapsto> si, ''count'' \<mapsto> 100] w = (Some resp, w1)"
    and "scim_read_page int_of_str resp url = Inr (rs, t, p)"
  shows "fetch_all_scim_users_loop int_of_str srv url si users w =
           (if p \<le> 0 \<or> si + p > t then Some (Inr (users @ rs), w1)
            else fetch_all_scim_users_loop int_of_str srv url (si + p) (users @ rs) w1)"
  using assms
  by (subst fetch_all_scim_users_loop.simps) (simp add: scim_page_def)

lemma scim_read_page_size:
  assumes "raise_for_status resp url = Inr ()" "body resp = Some (JDict payload)"
    and "dict_get payload ''Resources'' = JList rs" "dict_get payload ''totalResults'' = JInt t"
  shows "(\<not> truthy (dict_get payload ''itemsPerPage'') \<longrightarrow>
            scim_read_page int_of_str resp url = Inr (rs, t, int (length rs)))
       \<and> (\<forall>p. dict_get payload ''itemsPerPage'' = JInt p \<and> p \<noteq> 0 \<longrightarrow>
            scim_read_page int_of_str resp url = Inr (rs, t, p))"
proof -
  have j: "py_or (JDict payload) (JDict []) = JDict payload"
    by (cases payload) (simp_all add: py_or_def)
  have r: "py_iter (py_or (JList rs) (JList [])) = Inr rs"
    by (cases rs) (simp_all add: py_or_def)
  have t: "py_int int_of_str (py_or (JInt t) (JInt 0)) = Inr t"
    by (simp add: py_or_def)
  have l: "py_int int_of_str (py_or (JInt (int (length rs))) (JInt 0)) = Inr (int (length rs))"
    by (simp add: py_or_def)
  show ?thesis
    using assms j r t l
    by (auto simp: scim_read_page_def resp_json_def Let_def py_or_def)
qed

lemmas scim_evals = scim_read_page_def raise_for_status_def resp_json_def scim_body_def py_or_def
  dict_get_def Let_def

lemma growing_page:
  "scim_page int_of_str growing_server url (int (calls w) + 1) users w
     = (Inr (True, int (calls w) + 2, users), w\<lparr>calls := calls w + 1\<rparr>)"
  by (simp add: scim_page_def gh_get_def http_get_def retry_status_def plain_response_def
      growing_server_def scim_evals)

lemma growing_never_returns_aux:
  assumes "fetch_all_scim_users_loop int_of_str srv url si users w = Some y"
  shows "srv = growing_server \<longrightarrow> si = int (calls w) + 1 \<longrightarrow> False"
proof (rule fetch_all_scim_users_loop.raw_induct
    [where P = "\<lambda>i s u n us v y. s = growing_server \<longrightarrow> n = int (calls v) + 1 \<longrightarrow> False",
     OF _ assms])
  fix f :: "(string \<Rightarrow> int option) \<Rightarrow> server \<Rightarrow> string \<Rightarrow> int \<Rightarrow> json list \<Rightarrow> world
            \<Rightarrow> ((error + json list) \<times> world) option"
  fix i s u n us v y
  assume IH: "\<And>i s u n us v y. f i s u n us v = Some y \<Longrightarrow>
                 s = growing_server \<longrightarrow> n = int (calls v) + 1 \<longrightarrow> False"
    and step: "(case scim_page i s u n us v of
                  (Inl e, w1) \<Rightarrow> Some (Inl e, w1)
                | (Inr (again, start_index1, users1), w1) \<Rightarrow>
                    if again then f i s u start_index1 users1 w1 else Some (Inr users1, w1)) = Some y"
  show "s = growing_server \<longrightarrow> n = int (calls v) + 1 \<longrightarrow> False"
  proof (intro impI)
    assume g: "s = growing_server" and e: "n = int (calls v) + 1"
    from g e growing_page[of i u v us]
    have p: "scim_page i s u n us v
       = (Inr (True, int (calls v) + 2, us), v\<lparr>calls := calls v + 1\<rparr>)" by simp
    from step p
    have "f i s u (int (calls v) + 2) us (v\<lparr>calls := calls v + 1\<rparr>) = Some y"
      by simp
    from IH[OF this] g show False by simp
  qed
qed

lemma growing_never_returns:
  "fetch_all_scim_users_loop int_of_str growing_server url 1 users w0 = None"
proof (cases "fetch_all_scim_users_loop int_of_str growing_server url 1 users w0")
  case (Some y)
  from growing_never_returns_aux[OF Some] show ?thesis by (simp add: w0_def)
qed simp

text \<open>
  C5, as the code has it. When no response reports a \<open>totalResults\<close> above a bound
  \<open>N\<close>, the collection returns (the users or an error) after at most
  \<open>max(N - startIndex, 0) + 1\<close> pages, each of at most six GETs. After a page that is read
  without an error the loop stops when the page size is zero or negative or the advanced
  \<open>startIndex\<close> exceeds that page's \<open>totalResults\<close>, and goes on otherwise. The page size
  is the reported \<open>itemsPerPage\<close> when that is a non-zero number, and the number of
  resources on the page when \<open>itemsPerPage\<close> is zero, null or missing.
\<close>

theorem scim_collection_stops:
  "((\<forall>n ps rs t p. scim_read_page int_of_str (srv n url ps) url = Inr (rs, t, p) \<longrightarrow> t \<le> N) \<longrightarrow>
      (\<exists>r w1. fetch_all_scim_users_loop int_of_str srv url si users w = Some (r, w1) \<and>
               calls w1 \<le> calls w + 6 * (nat (N - si) + 1)))
   \<and> (gh_get srv url [''startIndex'' \<mapsto> si, ''count'' \<mapsto> 100] w = (Some resp, w1) \<and>
        scim_read_page int_of_str resp url = Inr (rs, t, p) \<longrightarrow>
        fetch_all_scim_users_loop int_of_str srv url si users w =
           (if p \<le> 0 \<or> si + p > t then Some (Inr (users @ rs), w1)
            else fetch_all_scim_users_loop int_of_str srv url (si + p) (users @ rs) w1))
   \<and> (raise_for_status resp url = Inr () \<and> body resp = Some (JDict payload) \<and>
        dict_get payload ''Resources'' = JList rs \<and> dict_get payload ''totalResults'' = JInt t \<longrightarrow>
        (\<not> truthy (dict_get payload ''itemsPerPage'') \<longrightarrow>
            scim_read_page int_of_str resp url = Inr (rs, t, int (length rs))) \<and>
        (\<forall>q. dict_get payload ''itemsPerPage'' = JInt q \<and> q \<noteq> 0 \<longrightarrow>
            scim_read_page int_of_str resp url = Inr (rs, t, q)))"
proof -
  have a: "(\<forall>n ps rs t p. scim_read_page int_of_str (srv n url ps) url = Inr (rs, t, p) \<longrightarrow> t \<le> N) \<longrightarrow>
      (\<exists>r w1. fetch_all_scim_users_loop int_of_str srv url si users w = Some (r, w1) \<and>
               calls w1 \<le> calls w + 6 * (nat (N - si) + 1))"
  proof
    assume h: "\<forall>n ps rs t p. scim_read_page int_of_str (srv n url ps) url = Inr (rs, t, p) \<longrightarrow> t \<le> N"
    show "\<exists>r w1. fetch_all_scim_users_loop int_of_str srv url si users w = Some (r, w1) \<and>
               calls w1 \<le> calls w + 6 * (nat (N - si) + 1)"
      by (rule scim_loop_terminates) (use h in blast)
  qed
  have b: "gh_get srv url [''startIndex'' \<mapsto> si, ''count'' \<mapsto> 100] w = (Some resp, w1) \<and>
        scim_read_page int_of_str resp url = Inr (rs, t, p) \<longrightarrow>
        fetch_all_scim_users_loop int_of_str srv url si users w =
           (if p \<le> 0 \<or> si + p > t then Some (Inr (users @ rs), w1)
            else fetch_all_scim_users_loop int_of_str srv url (si + p) (users @ rs) w1)"
    using scim_loop_decision[of srv url si w resp w1 int_of_str rs t p users] by blast
  have c: "raise_for_status resp url = Inr () \<and> body resp = Some (JDict payload) \<and>
        dict_get payload ''Resources'' = JList rs \<and> dict_get payload ''totalResults'' = JInt t \<longrightarrow>
        (\<not> truthy (dict_get payload ''itemsPerPage'') \<longrightarrow>
            scim_read_page int_of_str resp url = Inr (rs, t, int (length rs))) \<and>
        (\<forall>q. dict_get payload ''itemsPerPage'' = JInt q \<and> q \<noteq> 0 \<longrightarrow>
            scim_read_page int_of_str resp url = Inr (rs, t, q))"
    using scim_read_page_size[of resp url payload rs t int_of_str] by blast
  show ?thesis by (rule conjI[OF a conjI[OF b c]])
qed

theorem scim_collection_stops_witness:
  "fetch_all_scim_users newgen_cfg (\<lambda>s. None) directory_server w0
     = Some (Inr [JStr ''u1'', JStr ''u2'', JStr ''u3''], \<lparr>calls = 2, slept = []\<rparr>) \<and>
   scim_read_page (\<lambda>s. None) (plain_response 200 ''{...}'' (Some (scim_body [] 40 0)))
       (scim_url newgen_cfg) = Inr ([], 40, 0) \<and>
   fetch_all_scim_users newgen_cfg (\<lambda>s. None) empty_page_server w0
     = Some (Inr [], \<lparr>calls = 1, slept = []\<rparr>) \<and>
   (\<exists>r w1. fetch_all_scim_users_loop (\<lambda>s. None) directory_server (scim_url newgen_cfg) 1 [] w0
              = Some (r, w1) \<and> calls w1 \<le> calls w0 + 6 * (nat (3 - 1) + 1))"
proof -
  let ?u = "scim_url newgen_cfg"
  let ?p1 = "plain_response 200 ''{...}'' (Some (scim_body [JStr ''u1'', JStr ''u2''] 3 2))"
  let ?p2 = "plain_response 200 ''{...}'' (Some (scim_body [JStr ''u3''] 3 2))"
  let ?p0 = "plain_response 200 ''{...}'' (Some (scim_body [] 40 0))"
  note T = scim_collection_stops[where int_of_str = "\<lambda>s. None" and url = ?u]
  have g1: "gh_get directory_server ?u [''startIndex'' \<mapsto> 1, ''count'' \<mapsto> 100] w0
      = (Some ?p1, \<lparr>calls = 1, slept = []\<rparr>)"
    by (simp add: get_evals directory_server_def)
  have g2: "gh_get directory_server ?u [''startIndex'' \<mapsto> 3, ''count'' \<mapsto> 100] \<lparr>calls = 1, slept = []\<rparr>
      = (Some ?p2, \<lparr>calls = 2, slept = []\<rparr>)"
    by (simp add: get_evals directory_server_def)
  have g0: "gh_get empty_page_server ?u [''startIndex'' \<mapsto> 1, ''count'' \<mapsto> 100] w0
      = (Some ?p0, \<lparr>calls = 1, slept = []\<rparr>)"
    by (simp add: get_evals empty_page_server_def)
  have ok: "raise_for_status ?p1 ?u = Inr ()" "raise_for_status ?p2 ?u = Inr ()"
    "raise_for_status ?p0 ?u = Inr ()"
    by (simp_all add: raise_for_status_def plain_response_def)
  have r1: "scim_read_page (\<lambda>s. None) ?p1 ?u = Inr ([JStr ''u1'', JStr ''u2''], 3, 2)"
    using T[where resp = ?p1 and rs = "[JStr ''u1'', JStr ''u2'']" and t = 3
        and payload = "[(''Resources'', JList [JStr ''u1'', JStr ''u2'']), (''totalResults'', JInt 3),
            (''itemsPerPage'', JInt 2)]"] ok(1)
    by (simp add: plain_response_def scim_body_def dict_get_def)
  have r2: "scim_read_page (\<lambda>s. None) ?p2 ?u = Inr ([JStr ''u3''], 3, 2)"
    using T[where resp = ?p2 and rs = "[JStr ''u3'']" and t = 3
        and payload = "[(''Resources'', JList [JStr ''u3'']), (''totalResults'', JInt 3),
            (''itemsPerPage'', JInt 2)]"] ok(2)
    by (simp add: plain_response_def scim_body_def dict_get_def)
  have r0: "scim_read_page (\<lambda>s. None) ?p0 ?u = Inr ([], 40, 0)"
    using T[where resp = ?p0 and rs = "[]" and t = 40
        and payload = "[(''Resources'', JList []), (''totalResults'', JInt 40),
            (''itemsPerPage'', JInt 0)]"] ok(3)
    by (simp add: plain_response_def scim_body_def dict_get_def)
  have s2: "fetch_all_scim_users_loop (\<lambda>s. None) directory_server ?u 3 [JStr ''u1'', JStr ''u2'']
              \<lparr>calls = 1, slept = []\<rparr>
      = Some (Inr [JStr ''u1'', JStr ''u2'', JStr ''u3''], \<lparr>calls = 2, slept = []\<rparr>)"
    using T[where srv = directory_server and si = 3 and w = "\<lparr>calls = 1, slept = []\<rparr>"
        and resp = ?p2 and ?w1.0 = "\<lparr>calls = 2, slept = []\<rparr>" and rs = "[JStr ''u3'']"
        and t = 3 and p = 2 and users = "[JStr ''u1'', JStr ''u2'']"] g2 r2
    by simp
  have s1: "fetch_all_scim_users_loop (\<lambda>s. None) directory_server ?u 1 [] w0
      = Some (Inr [JStr ''u1'', JStr ''u2'', JStr ''u3''], \<lparr>calls = 2, slept = []\<rparr>)"
    using T[where srv = directory_server and si = 1 and w = w0
        and resp = ?p1 and ?w1.0 = "\<lparr>calls = 1, slept = []\<rparr>" and rs = "[JStr ''u1'', JStr ''u2'']"
        and t = 3 and p = 2 and users = "[]"] g1 r1 s2
    by simp
  have s0: "fetch_all_scim_users_loop (\<lambda>s. None) empty_page_server ?u 1 [] w0
      = Some (Inr [], \<lparr>calls = 1, slept = []\<rparr>)"
    using T[where srv = empty_page_server and si = 1 and w = w0
        and resp = ?p0 and ?w1.0 = "\<lparr>calls = 1, slept = []\<rparr>" and rs = "[]"
        and t = 40 and p = 0 and users = "[]"] g0 r0
    by simp
  have bound: "\<forall>n ps rs t p. scim_read_page (\<lambda>s. None) (directory_server n ?u ps) ?u = Inr (rs, t, p)
                 \<longrightarrow> t \<le> 3"
    using r1 r2 by (auto simp: directory_server_def)
  have fin: "\<exists>r w1. fetch_all_scim_users_loop (\<lambda>s. None) directory_server ?u 1 [] w0
              = Some (r, w1) \<and> calls w1 \<le> calls w0 + 6 * (nat (3 - 1) + 1)"
    using T[where srv = directory_server and N = 3 and si = 1 and users = "[]" and w = w0] bound
    by blast
  from s1 r0 s0 fin show ?thesis
    by (simp only: fetch_all_scim_users_def simp_thms)
qed

text \<open>
  The claim as stated has the collection end after a first page that reports
  \<open>itemsPerPage = 0\<close>, and end for every sequence of responses; a first page reporting
  0 with one resource is followed by a second request, and against a server whose
  reported total grows with every request the collection never returns.
\<close>

theorem zero_page_size_counterexample:
  "body (zero_page_server 0 (scim_url newgen_cfg) [''startIndex'' \<mapsto> 1, ''count'' \<mapsto> 100])
     = Some (JDict [(''Resources'', JList [JStr ''u1'']), (''totalResults'', JInt 2),
                    (''itemsPerPage'', JInt 0)]) \<and>
   fetch_all_scim_users newgen_cfg (\<lambda>s. None) zero_page_server w0
     = Some (Inr [JStr ''u1''], \<lparr>calls = 2, slept = []\<rparr>) \<and>
   fetch_all_scim_users newgen_cfg (\<lambda>s. None) growing_server w0 = None"
proof -
  let ?u = "scim_url newgen_cfg"
  let ?p1 = "plain_response 200 ''{...}'' (Some (scim_body [JStr ''u1''] 2 0))"
  let ?p2 = "plain_response 200 ''{...}'' (Some (scim_body [] 2 0))"
  have b: "body (zero_page_server 0 ?u [''startIndex'' \<mapsto> 1, ''count'' \<mapsto> 100])
     = Some (JDict [(''Resources'', JList [JStr ''u1'']), (''totalResults'', JInt 2),
                    (''itemsPerPage'', JInt 0)])"
    by (simp add: zero_page_server_def plain_response_def scim_body_def)
  have g1: "gh_get zero_page_server ?u [''startIndex'' \<mapsto> 1, ''count'' \<mapsto> 100] w0
      = (Some ?p1, \<lparr>calls = 1, slept = []\<rparr>)"
    by (simp add: get_evals zero_page_server_def)
  have g2: "gh_get zero_page_server ?u [''startIndex'' \<mapsto> 2, ''count'' \<mapsto> 100] \<lparr>calls = 1, slept = []\<rparr>
      = (Some ?p2, \<lparr>calls = 2, slept = []\<rparr>)"
    by (simp add: get_evals zero_page_server_def)
  have r1: "scim_read_page (\<lambda>s. None) ?p1 ?u = Inr ([JStr ''u1''], 2, 1)"
    by (simp add: plain_response_def scim_evals)
  have r2: "scim_read_page (\<lambda>s. None) ?p2 ?u = Inr ([], 2, 0)"
    by (simp add: plain_response_def scim_evals)
  have s2: "fetch_all_scim_users_loop (\<lambda>s. None) zero_page_server ?u 2 [JStr ''u1'']
              \<lparr>calls = 1, slept = []\<rparr>
      = Some (Inr [JStr ''u1''], \<lparr>calls = 2, slept = []\<rparr>)"
    using scim_loop_decision[OF g2 r2, of "[JStr ''u1'']"] by simp
  have s1: "fetch_all_scim_users_loop (\<lambda>s. None) zero_page_server ?u 1 [] w0
      = Some (Inr [JStr ''u1''], \<lparr>calls = 2, slept = []\<rparr>)"
    using scim_loop_decision[OF g1 r1, of "[]"] s2 by simp
  from b s1 growing_never_returns[of "\<lambda>s. None" ?u "[]"] show ?thesis
    by (simp only: fetch_all_scim_users_def simp_thms)
qed

section \<open>Payload shapes\<close>

lemma link_loop_ok_page:
  assumes "http_get srv url [''per_page'' \<mapsto> 100, ''page'' \<mapsto> page] w = (resp, w1)"
    and "handle_rate_limit int_of_str clock resp w1 = Inr w2"
    and "status_code resp = 200" and "body resp = Some j"
  shows "link_loop int_of_str clock srv url all_entries page w =
           (if \<not> truthy j then Some (Inr all_entries, w2)
            else case py_iter j of
                   Inl e \<Rightarrow> Some (Inl e, w2)
                 | Inr items \<Rightarrow>
                     if links_next resp
                     then link_loop int_of_str clock srv url (all_entries @ items) (page + 1) (sleep 1 w2)
                     else Some (Inr (all_entries @ items), w2))"
  using assms
  by (subst link_loop.simps) (simp add: link_page_def resp_json_def split: sum.splits)

text \<open>
  C9, as the code has it. The payload normaliser of the billing-seat script returns a
  bare array as it is; for an object it returns the value of the first key, in the order
  of \<open>keys\<close>, whose value is a list; in every other case it raises the "Unsupported list
  payload shape" error. It returns an empty list only for an empty array or for a key
  whose value is an empty list, never for a payload whose shape it does not recognise.
  The collectors of the metrics script use no normaliser. On a 200 response whose decoded
  payload is empty or otherwise false they stop and return the entries gathered so far;
  otherwise they extend the entries with the payload as it is, the items of an array or
  the key names of an object, and go on to the next page exactly when the response has a
  \<open>next\<close> link.
\<close>

theorem list_payload_contract:
  "(\<forall>xs. payload = JList xs \<longrightarrow> normalize_list_payload payload keys = Inr xs) \<and>
   (\<forall>kvs i v. payload = JDict kvs \<and> i < length keys \<and> dict_get kvs (keys ! i) = JList v \<and>
        (\<forall>j<i. \<not> is_list (dict_get kvs (keys ! j)))
      \<longrightarrow> normalize_list_payload payload keys = Inr v) \<and>
   (\<not> is_list payload \<and> (\<forall>kvs. payload = JDict kvs \<longrightarrow> (\<forall>k\<in>set keys. \<not> is_list (dict_get kvs k)))
      \<longrightarrow> normalize_list_payload payload keys = Inl (unsupported_shape payload)) \<and>
   (normalize_list_payload payload keys = Inr [] \<longrightarrow>
      payload = JList [] \<or>
      (\<exists>kvs k. payload = JDict kvs \<and> k \<in> set keys \<and> dict_get kvs k = JList [])) \<and>
   (http_get srv url [''per_page'' \<mapsto> 100, ''page'' \<mapsto> page] w = (resp, w1) \<and>
    handle_rate_limit int_of_str clock resp w1 = Inr w2 \<and>
    status_code resp = 200 \<and> body resp = Some payload \<longrightarrow>
      (\<not> truthy payload \<longrightarrow>
         link_loop int_of_str clock srv url all_entries page w = Some (Inr all_entries, w2)) \<and>
      (truthy payload \<and> \<not> links_next resp \<longrightarrow>
         (\<forall>xs. payload = JList xs \<longrightarrow>
            link_loop int_of_str clock srv url all_entries page w = Some (Inr (all_entries @ xs), w2)) \<and>
         (\<forall>kvs. payload = JDict kvs \<longrightarrow>
            link_loop int_of_str clock srv url all_entries page w
              = Some (Inr (all_entries @ map (\<lambda>kv. JStr (fst kv)) kvs), w2))) \<and>
      (\<forall>items. truthy payload \<and> links_next resp \<and> py_iter payload = Inr items \<longrightarrow>
         link_loop int_of_str clock srv url all_entries page w
           = link_loop int_of_str clock srv url (all_entries @ items) (page + 1) (sleep 1 w2)))"
proof -
  note n = normalize_list_payload_cases[of payload keys]
  have m: "http_get srv url [''per_page'' \<mapsto> 100, ''page'' \<mapsto> page] w = (resp, w1) \<and>
    handle_rate_limit int_of_str clock resp w1 = Inr w2 \<and>
    status_code resp = 200 \<and> body resp = Some payload \<longrightarrow>
      (\<not> truthy payload \<longrightarrow>
         link_loop int_of_str clock srv url all_entries page w = Some (Inr all_entries, w2)) \<and>
      (truthy payload \<and> \<not> links_next resp \<longrightarrow>
         (\<forall>xs. payload = JList xs \<longrightarrow>
            link_loop int_of_str clock srv url all_entries page w = Some (Inr (all_entries @ xs), w2)) \<and>
         (\<forall>kvs. payload = JDict kvs \<longrightarrow>
            link_loop int_of_str clock srv url all_entries page w
              = Some (Inr (all_entries @ map (\<lambda>kv. JStr (fst kv)) kvs), w2))) \<and>
      (\<forall>items. truthy payload \<and> links_next resp \<and> py_iter payload = Inr items \<longrightarrow>
         link_loop int_of_str clock srv url all_entries page w
           = link_loop int_of_str clock srv url (all_entries @ items) (page + 1) (sleep 1 w2))"
  proof
    assume a: "http_get srv url [''per_page'' \<mapsto> 100, ''page'' \<mapsto> page] w = (resp, w1) \<and>
      handle_rate_limit int_of_str clock resp w1 = Inr w2 \<and>
      status_code resp = 200 \<and> body resp = Some payload"
    note s = link_loop_ok_page[of srv url page w resp w1 int_of_str clock w2 payload all_entries]
    from a have e: "link_loop int_of_str clock srv url all_entries page w =
           (if \<not> truthy payload then Some (Inr all_entries, w2)
            else case py_iter payload of
                   Inl e \<Rightarrow> Some (Inl e, w2)
                 | Inr items \<Rightarrow>
                     if links_next resp
                     then link_loop int_of_str clock srv url (all_entries @ items) (page + 1) (sleep 1 w2)
                     else Some (Inr (all_entries @ items), w2))"
      using s by blast
    show "(\<not> truthy payload \<longrightarrow>
         link_loop int_of_str clock srv url all_entries page w = Some (Inr all_entries, w2)) \<and>
      (truthy payload \<and> \<not> links_next resp \<longrightarrow>
         (\<forall>xs. payload = JList xs \<longrightarrow>
            link_loop int_of_str clock srv url all_entries page w = Some (Inr (all_entries @ xs), w2)) \<and>
         (\<forall>kvs. payload = JDict kvs \<longrightarrow>
            link_loop int_of_str clock srv url all_entries page w
              = Some (Inr (all_entries @ map (\<lambda>kv. JStr (fst kv)) kvs), w2))) \<and>
      (\<forall>items. truthy payload \<and> links_next resp \<and> py_iter payload = Inr items \<longrightarrow>
         link_loop int_of_str clock srv url all_entries page w
           = link_loop int_of_str clock srv url (all_entries @ items) (page + 1) (sleep 1 w2))"
      unfolding e by auto
  qed
  from n m show ?thesis by (elim conjE) (intro conjI; assumption)
qed

theorem list_payload_contract_witness:
  "normalize_list_payload (JList [JInt 1]) [''teams'', ''items'', ''data''] = Inr [JInt 1] \<and>
   normalize_list_payload (JDict [(''data'', JList [JInt 7]), (''teams'', JNull), (''items'', JList [JInt 2])])
      [''teams'', ''items'', ''data''] = Inr [JInt 2] \<and>
   normalize_list_payload (JDict [(''message'', JStr ''Not Found'')]) [''teams'', ''items'', ''data'']
     = Inl (RuntimeError (''Unsupported list payload shape: <class '' @ [CHR 0x27] @ ''dict'' @ [CHR 0x27] @ ''>'')) \<and>
   normalize_list_payload (JDict [(''items'', JList [])]) [''teams'', ''items'', ''data''] = Inr [] \<and>
   link_loop (\<lambda>s. None) (\<lambda>n. 0) bare_teams_server ''u'' [JStr ''kept''] 1 w0
     = Some (Inr [JStr ''kept'', JStr ''team-a''], \<lparr>calls = 1, slept = []\<rparr>) \<and>
   link_loop (\<lambda>s. None) (\<lambda>n. 0) empty_object_server ''u'' [JStr ''kept''] 2 w0
     = Some (Inr [JStr ''kept''], \<lparr>calls = 1, slept = []\<rparr>)"
proof -
  let ?K = "[''teams'', ''items'', ''data'']"
  have a: "normalize_list_payload (JList [JInt 1]) ?K = Inr [JInt 1]"
    using list_payload_contract[where payload = "JList [JInt 1]" and keys = ?K] by simp
  have b: "normalize_list_payload
      (JDict [(''data'', JList [JInt 7]), (''teams'', JNull), (''items'', JList [JInt 2])]) ?K
      = Inr [JInt 2]"
    using list_payload_contract[where keys = ?K and payload =
        "JDict [(''data'', JList [JInt 7]), (''teams'', JNull), (''items'', JList [JInt 2])]"]
    by (simp add: normalize_list_payload_def dict_get_def)
  have c: "normalize_list_payload (JDict [(''message'', JStr ''Not Found'')]) ?K
     = Inl (RuntimeError (''Unsupported list payload shape: <class '' @ [CHR 0x27] @ ''dict'' @ [CHR 0x27] @ ''>''))"
    using list_payload_contract[where keys = ?K and payload = "JDict [(''message'', JStr ''Not Found'')]"]
    by (simp add: normalize_list_payload_def dict_get_def unsupported_shape_def)
  have d: "normalize_list_payload (JDict [(''items'', JList [])]) ?K = Inr []"
    using list_payload_contract[where keys = ?K and payload = "JDict [(''items'', JList [])]"]
    by (simp add: normalize_list_payload_def dict_get_def)
  have g1: "http_get bare_teams_server ''u'' [''per_page'' \<mapsto> 100, ''page'' \<mapsto> 1] w0
      = (plain_response 200 ''[...]'' (Some (JList [JStr ''team-a''])), \<lparr>calls = 1, slept = []\<rparr>)"
    by (simp add: get_evals bare_teams_server_def)
  have g2: "http_get empty_object_server ''u'' [''per_page'' \<mapsto> 100, ''page'' \<mapsto> 2] w0
      = (plain_response 200 ''{}'' (Some (JDict [])), \<lparr>calls = 1, slept = []\<rparr>)"
    by (simp add: get_evals empty_object_server_def)
  have h: "handle_rate_limit (\<lambda>s. None) (\<lambda>n. 0) (plain_response 200 bt j)
       \<lparr>calls = 1, slept = []\<rparr> = Inr \<lparr>calls = 1, slept = []\<rparr>" for bt j
    by (simp add: handle_rate_limit_def header_int_def plain_response_def)
  have e: "link_loop (\<lambda>s. None) (\<lambda>n. 0) bare_teams_server ''u'' [JStr ''kept''] 1 w0
     = Some (Inr [JStr ''kept'', JStr ''team-a''], \<lparr>calls = 1, slept = []\<rparr>)"
    using list_payload_contract[where srv = bare_teams_server and url = "''u''" and page = 1
        and w = w0 and resp = "plain_response 200 ''[...]'' (Some (JList [JStr ''team-a'']))"
        and ?w1.0 = "\<lparr>calls = 1, slept = []\<rparr>" and ?w2.0 = "\<lparr>calls = 1, slept = []\<rparr>"
        and int_of_str = "\<lambda>s. None" and clock = "\<lambda>n. 0"
        and payload = "JList [JStr ''team-a'']" and all_entries = "[JStr ''kept'']"] g1 h
    by (simp add: plain_response_def)
  have f: "link_loop (\<lambda>s. None) (\<lambda>n. 0) empty_object_server ''u'' [JStr ''kept''] 2 w0
     = Some (Inr [JStr ''kept''], \<lparr>calls = 1, slept = []\<rparr>)"
    using list_payload_contract[where srv = empty_object_server and url = "''u''" and page = 2
        and w = w0 and resp = "plain_response 200 ''{}'' (Some (JDict []))"
        and ?w1.0 = "\<lparr>calls = 1, slept = []\<rparr>" and ?w2.0 = "\<lparr>calls = 1, slept = []\<rparr>"
        and int_of_str = "\<lambda>s. None" and clock = "\<lambda>n. 0"
        and payload = "JDict []" and all_entries = "[JStr ''kept'']"] g2 h
    by (simp add: plain_response_def)
  show ?thesis by (rule conjI[OF a conjI[OF b conjI[OF c conjI[OF d conjI[OF e f]]]]])
qed

text \<open>
  The claim as stated has every endpoint with a wrapped or bare envelope normalised and
  never answered by a silent empty list; the teams collector of the metrics script turns
  the payload \<open>{}\<close> into an empty list and a wrapper object into its key names.
\<close>

theorem metrics_teams_payload_counterexample:
  "body (empty_object_server 0 ''u'' [''per_page'' \<mapsto> 100, ''page'' \<mapsto> 1]) = Some (JDict []) \<and>
   metrics_fetch_enterprise_teams ''Newgen'' (\<lambda>s. None) (\<lambda>n. 0) empty_object_server w0
     = Some (Inr [], \<lparr>calls = 1, slept = []\<rparr>) \<and>
   body (wrapped_teams_server 0 ''u'' [''per_page'' \<mapsto> 100, ''page'' \<mapsto> 1])
     = Some (JDict [(''teams'', JList [JStr ''team-a''])]) \<and>
   metrics_fetch_enterprise_teams ''Newgen'' (\<lambda>s. None) (\<lambda>n. 0) wrapped_teams_server w0
     = Some (Inr [JStr ''teams''], \<lparr>calls = 1, slept = []\<rparr>)"
proof -
  have h: "handle_rate_limit (\<lambda>s. None) (\<lambda>n. 0) (plain_response 200 bt j)
       \<lparr>calls = 1, slept = []\<rparr> = Inr \<lparr>calls = 1, slept = []\<rparr>" for bt j
    by (simp add: handle_rate_limit_def header_int_def plain_response_def)
  have g1: "http_get empty_object_server u [''per_page'' \<mapsto> 100, ''page'' \<mapsto> 1] w0
      = (plain_response 200 ''{}'' (Some (JDict [])), \<lparr>calls = 1, slept = []\<rparr>)" for u
    by (simp add: get_evals empty_object_server_def)
  have g2: "http_get wrapped_teams_server u [''per_page'' \<mapsto> 100, ''page'' \<mapsto> 1] w0
      = (plain_response 200 ''{...}'' (Some (JDict [(''teams'', JList [JStr ''team-a''])])),
         \<lparr>calls = 1, slept = []\<rparr>)" for u
    by (simp add: get_evals wrapped_teams_server_def)
  have a: "metrics_fetch_enterprise_teams ''Newgen'' (\<lambda>s. None) (\<lambda>n. 0) empty_object_server w0
     = Some (Inr [], \<lparr>calls = 1, slept = []\<rparr>)"
    unfolding metrics_fetch_enterprise_teams_def
    using link_loop_ok_page[where j = "JDict []" and all_entries = "[]", OF g1 h]
    by (simp add: plain_response_def)
  have b: "metrics_fetch_enterprise_teams ''Newgen'' (\<lambda>s. None) (\<lambda>n. 0) wrapped_teams_server w0
     = Some (Inr [JStr ''teams''], \<lparr>calls = 1, slept = []\<rparr>)"
    unfolding metrics_fetch_enterprise_teams_def
    using link_loop_ok_page[where j = "JDict [(''teams'', JList [JStr ''team-a''])]"
        and all_entries = "[]", OF g2 h]
    by (simp add: plain_response_def)
  from a b show ?thesis
    by (simp add: empty_object_server_def wrapped_teams_server_def plain_response_def)
qed


end
